theory Spec2Isabelle
  imports Main "HOL-Library.AList"
begin

section \<open>The cookie loader of gemini_webapi (utils/load_browser_cookies.py)\<close>

text \<open>
  The module holds one table, \<^verbatim>\<open>BROWSER_MAPPING\<close>, and one function,
  \<^verbatim>\<open>load_browser_cookies(domain_name, verbose, browser_name)\<close>. The function
  calls reader functions of the external package \<^verbatim>\<open>browser_cookie3\<close> (imported as
  \<^verbatim>\<open>bc3\<close>), copies the cookies they yield into a fresh dict, writes to the module's
  logger, and returns the dict.

  The embedding makes every effect explicit.
  \<^item> The package \<^verbatim>\<open>bc3\<close> is not part of the repository: it is a parameter of the
    model (type \<open>bc3\<close>), giving for each reader function and each
    \<^verbatim>\<open>domain_name\<close> what the loop \<^verbatim>\<open>for cookie in cookie_fn(domain_name=...)\<close>
    observes: the cookies yielded, then the end of the iteration or a raised exception.
  \<^item> The calls made to the readers and the records handed to the logger are the
    two components of a \<open>world\<close> that the function takes and returns extended.
  \<^item> An exception that leaves the function is the \<open>Inl\<close> of the result; the returned
    dict is the \<open>Inr\<close>.
  \<^item> A Python dict is an association list with distinct keys in insertion order;
    \<^verbatim>\<open>d[k] = v\<close> is \<^const>\<open>AList.update\<close> (an existing key keeps its place and
    takes the new value, a new key is appended), \<^verbatim>\<open>d[k]\<close> is \<^const>\<open>map_of\<close>.
\<close>

subsection \<open>Data\<close>

text \<open>
  A cookie as the loop reads it: the attributes \<^verbatim>\<open>cookie.name\<close> and
  \<^verbatim>\<open>cookie.value\<close> of an \<^verbatim>\<open>http.cookiejar.Cookie\<close>.
\<close>

record cookie =
  cookie_name :: string
  cookie_value :: string

type_synonym dict = "(string \<times> string) list"

text \<open>
  The exception classes that the \<^verbatim>\<open>except\<close> clauses of the function tell apart,
  each carrying the text of \<^verbatim>\<open>str(e)\<close>:
  \<^verbatim>\<open>bc3.BrowserCookieError\<close>, \<^verbatim>\<open>PermissionError\<close>, every other instance of
  \<^verbatim>\<open>Exception\<close>, and the instances of \<^verbatim>\<open>BaseException\<close> that are not
  instances of \<^verbatim>\<open>Exception\<close> (\<^verbatim>\<open>KeyboardInterrupt\<close>, \<^verbatim>\<open>SystemExit\<close>,
  \<^verbatim>\<open>GeneratorExit\<close>), which no clause of the function matches.
\<close>

datatype py_exception =
    BrowserCookieError string
  | PermissionError string
  | OtherException string
  | OtherBaseException string

text \<open>\<^verbatim>\<open>isinstance(e, Exception)\<close>: what the clause \<^verbatim>\<open>except Exception\<close> tests.\<close>

fun is_Exception :: "py_exception \<Rightarrow> bool" where
  "is_Exception (BrowserCookieError e) = True"
| "is_Exception (PermissionError e) = True"
| "is_Exception (OtherException e) = True"
| "is_Exception (OtherBaseException e) = False"

text \<open>The ten reader functions of \<^verbatim>\<open>browser_cookie3\<close> that the module names.\<close>

datatype bc3_fn =
    firefox | chrome | chromium | opera | opera_gx
  | brave | edge | vivaldi | safari | librewolf

text \<open>
  What iterating over the value of one reader call gives: the cookies yielded, in order,
  and the exception that ended the iteration, if one did. A call that raises before it
  yields anything has \<open>yielded = []\<close>.
\<close>

record iteration =
  yielded :: "cookie list"
  raised :: "py_exception option"

type_synonym bc3 = "bc3_fn \<Rightarrow> string \<Rightarrow> iteration"

datatype level = INFO | WARNING | ERROR

record world =
  invocations :: "(bc3_fn \<times> string) list"
  logged :: "(level \<times> string) list"

subsection \<open>The module\<close>

text \<open>
  \<^verbatim>\<open>BROWSER_MAPPING\<close>, lines 4 to 15: a dict literal, so its iteration order is the
  order of the entries as written.
\<close>

definition BROWSER_MAPPING :: "(string \<times> bc3_fn) list" where
  "BROWSER_MAPPING =
     [(''firefox'', firefox),
      (''chrome'', chrome),
      (''chromium'', chromium),
      (''opera'', opera),
      (''opera_gx'', opera_gx),
      (''brave'', brave),
      (''edge'', edge),
      (''vivaldi'', vivaldi),
      (''safari'', safari),
      (''librewolf'', librewolf)]"

text \<open>
  \<^verbatim>\<open>str.lower()\<close>. A \<open>char\<close> is a byte; the letters \<^verbatim>\<open>A\<close> to \<^verbatim>\<open>Z\<close> go to
  \<^verbatim>\<open>a\<close> to \<^verbatim>\<open>z\<close> and every other byte stays. Python also lowers letters outside
  ASCII, but none of them to a string of ASCII letters that occurs in a key of
  \<^verbatim>\<open>BROWSER_MAPPING\<close> (the Kelvin sign goes to \<^verbatim>\<open>k\<close>, which no key contains), and
  the lowered name is used for the lookup only, so the lookup is the same.
\<close>

definition lower_char :: "char \<Rightarrow> char" where
  "lower_char c =
     (case map_of (zip ''ABCDEFGHIJKLMNOPQRSTUVWXYZ'' ''abcdefghijklmnopqrstuvwxyz'') c of
        Some l \<Rightarrow> l
      | None \<Rightarrow> c)"

definition lower :: "string \<Rightarrow> string" where
  "lower s = map lower_char s"

text \<open>\<^verbatim>\<open>sep.join(parts)\<close>.\<close>

fun join :: "string \<Rightarrow> string list \<Rightarrow> string" where
  "join sep [] = []"
| "join sep [s] = s"
| "join sep (s # t # ts) = s @ sep @ join sep (t # ts)"

text \<open>A call of a logger method appends one record.\<close>

definition logger :: "level \<Rightarrow> string \<Rightarrow> world \<Rightarrow> world" where
  "logger lvl msg w = w\<lparr>logged := logged w @ [(lvl, msg)]\<rparr>"

text \<open>The call \<^verbatim>\<open>cookie_fn(domain_name=domain_name)\<close> and the iteration over its value.\<close>

definition invoke :: "bc3 \<Rightarrow> bc3_fn \<Rightarrow> string \<Rightarrow> world \<Rightarrow> iteration \<times> world" where
  "invoke env cookie_fn domain_name w =
     (env cookie_fn domain_name,
      w\<lparr>invocations := invocations w @ [(cookie_fn, domain_name)]\<rparr>)"

text \<open>
  The body of the inner loop, \<^verbatim>\<open>cookies[cookie.name] = cookie.value\<close>, run over the
  cookies that the iteration yields (lines 45 to 46 and 71 to 72).
\<close>

fun for_cookie :: "cookie list \<Rightarrow> dict \<Rightarrow> dict" where
  "for_cookie [] cookies = cookies"
| "for_cookie (c # cs) cookies =
     for_cookie cs (AList.update (cookie_name c) (cookie_value c) cookies)"

text \<open>
  The \<^verbatim>\<open>else\<close> branch, lines 69 to 86: the loop over \<^verbatim>\<open>BROWSER_MAPPING.items()\<close>
  with its \<^verbatim>\<open>try\<close> statement. The cookies yielded before an exception are already in
  the dict when the handler runs. An exception that no clause matches leaves the
  function, and the dict with it.
\<close>

fun try_all ::
  "bc3 \<Rightarrow> string \<Rightarrow> bool \<Rightarrow> (string \<times> bc3_fn) list \<Rightarrow> dict \<Rightarrow> world
     \<Rightarrow> (py_exception + dict) \<times> world" where
  "try_all env domain_name verbose [] cookies w = (Inr cookies, w)"
| "try_all env domain_name verbose ((cookie_fn_name, cookie_fn) # items) cookies w =
     (let (it, w1) = invoke env cookie_fn domain_name w;
          cookies1 = for_cookie (yielded it) cookies
      in case raised it of
           None \<Rightarrow> try_all env domain_name verbose items cookies1 w1
         | Some (BrowserCookieError e) \<Rightarrow>
             try_all env domain_name verbose items cookies1 w1
         | Some (PermissionError e) \<Rightarrow>
             try_all env domain_name verbose items cookies1
               (if verbose
                then logger WARNING
                       (''Permission denied while trying to load cookies from ''
                          @ cookie_fn_name @ ''. '' @ e) w1
                else w1)
         | Some (OtherException e) \<Rightarrow>
             try_all env domain_name verbose items cookies1
               (if verbose
                then logger ERROR
                       (''Error happened while trying to load cookies from ''
                          @ cookie_fn_name @ ''. '' @ e) w1
                else w1)
         | Some (OtherBaseException e) \<Rightarrow> (Inl (OtherBaseException e), w1))"

text \<open>
  The branch for a supported name, lines 43 to 60: one reader, and a log record for
  each of the three handled classes when \<^verbatim>\<open>verbose\<close> is true. The messages name the
  browser as the caller wrote it.
\<close>

definition try_one ::
  "bc3 \<Rightarrow> string \<Rightarrow> bool \<Rightarrow> string \<Rightarrow> bc3_fn \<Rightarrow> dict \<Rightarrow> world
     \<Rightarrow> (py_exception + dict) \<times> world" where
  "try_one env domain_name verbose browser_name cookie_fn cookies w =
     (let (it, w1) = invoke env cookie_fn domain_name w;
          cookies1 = for_cookie (yielded it) cookies
      in case raised it of
           None \<Rightarrow> (Inr cookies1, w1)
         | Some (BrowserCookieError e) \<Rightarrow>
             (Inr cookies1,
              if verbose
              then logger INFO
                     (''No cookies found for '' @ browser_name
                        @ '' or browser not installed.'') w1
              else w1)
         | Some (PermissionError e) \<Rightarrow>
             (Inr cookies1,
              if verbose
              then logger WARNING
                     (''Permission denied while trying to load cookies from ''
                        @ browser_name @ ''. '' @ e) w1
              else w1)
         | Some (OtherException e) \<Rightarrow>
             (Inr cookies1,
              if verbose
              then logger ERROR
                     (''Error happened while trying to load cookies from ''
                        @ browser_name @ ''. '' @ e) w1
              else w1)
         | Some (OtherBaseException e) \<Rightarrow> (Inl (OtherBaseException e), w1))"

text \<open>
  \<^verbatim>\<open>load_browser_cookies\<close>, lines 17 to 87. The test \<^verbatim>\<open>if browser_name:\<close> is false
  for \<^verbatim>\<open>None\<close> and for the empty string. The dict starts empty (line 38).
\<close>

definition load_browser_cookies ::
  "bc3 \<Rightarrow> string \<Rightarrow> bool \<Rightarrow> string option \<Rightarrow> world \<Rightarrow> (py_exception + dict) \<times> world" where
  "load_browser_cookies env domain_name verbose browser_name w =
     (let cookies = [] in
      case browser_name of
        Some name \<Rightarrow>
          if name \<noteq> [] then
            (let browser_name_lower = lower name in
             case map_of BROWSER_MAPPING browser_name_lower of
               Some cookie_fn \<Rightarrow> try_one env domain_name verbose name cookie_fn cookies w
             | None \<Rightarrow>
                 (Inr [],
                  logger WARNING
                    (''Invalid browser name '' @ [CHR 0x27] @ name @ [CHR 0x27]
                       @ ''. Supported names are: ''
                       @ join '', '' (map fst BROWSER_MAPPING)
                       @ ''. No cookies will be loaded.'') w))
          else try_all env domain_name verbose BROWSER_MAPPING cookies w
      | None \<Rightarrow> try_all env domain_name verbose BROWSER_MAPPING cookies w)"

subsection \<open>Readers with fixed outcomes\<close>

text \<open>
  The tests of the repository (tests/test_utils.py) replace the readers by mocks with a
  \<^verbatim>\<open>return_value\<close> (a list of cookies) or a \<^verbatim>\<open>side_effect\<close> (an exception raised by
  the call). \<open>patched\<close> is such a set of readers: the listed ones behave as given for
  every domain name, the others return no cookie.
\<close>

definition return_value :: "cookie list \<Rightarrow> iteration" where
  "return_value cs = \<lparr>yielded = cs, raised = None\<rparr>"

definition side_effect :: "py_exception \<Rightarrow> iteration" where
  "side_effect e = \<lparr>yielded = [], raised = Some e\<rparr>"

definition patched :: "(bc3_fn \<times> iteration) list \<Rightarrow> bc3" where
  "patched mocks cookie_fn domain_name =
     (case map_of mocks cookie_fn of Some it \<Rightarrow> it | None \<Rightarrow> return_value [])"

definition mock_cookie :: "string \<Rightarrow> string \<Rightarrow> cookie" where
  "mock_cookie n v = \<lparr>cookie_name = n, cookie_value = v\<rparr>"

definition fresh :: world where
  "fresh = \<lparr>invocations = [], logged = []\<rparr>"

text \<open>
  The readers of the test \<^verbatim>\<open>test_load_no_specific_browser_merges_cookies\<close>: chrome and
  firefox both yield a cookie named \<^verbatim>\<open>__Secure-1PSID\<close>, opera and safari raise
  \<^verbatim>\<open>BrowserCookieError\<close>, the other six return no cookie.
\<close>

definition merging_mocks :: bc3 where
  "merging_mocks =
     patched
       [(chrome, return_value [mock_cookie ''__Secure-1PSID'' ''chrome_psid'',
                               mock_cookie ''OTHER_COOKIE'' ''chrome_other_val'']),
        (firefox, return_value [mock_cookie ''ANOTHER_COOKIE'' ''firefox_another_val'',
                                mock_cookie ''__Secure-1PSID'' ''firefox_override_psid'']),
        (opera, side_effect (BrowserCookieError ''Opera error'')),
        (safari, side_effect (BrowserCookieError ''Safari error''))]"

section \<open>Properties\<close>

subsection \<open>The inner loop\<close>

lemma for_cookie_append: "for_cookie (xs @ ys) d = for_cookie ys (for_cookie xs d)"
  by (induction xs arbitrary: d) simp_all

lemma map_of_for_cookie:
  "map_of (for_cookie cs d) k =
     (case filter (\<lambda>c. cookie_name c = k) cs of
        [] \<Rightarrow> map_of d k
      | x # xs \<Rightarrow> Some (cookie_value (last (x # xs))))"
  by (induction cs arbitrary: d) (auto simp: update_conv' split: list.splits)

lemma distinct_for_cookie:
  "distinct (map fst d) \<Longrightarrow> distinct (map fst (for_cookie cs d))"
  by (induction cs arbitrary: d) (simp_all add: distinct_update)

lemma map_of_for_cookie_last:
  assumes "filter (\<lambda>c. cookie_name c = k) cs \<noteq> []"
  shows "map_of (for_cookie cs d) k =
           Some (cookie_value (last (filter (\<lambda>c. cookie_name c = k) cs)))"
  using assms by (simp add: map_of_for_cookie split: list.splits)

lemma for_cookie_entries:
  assumes "(k, v) \<in> set (for_cookie cs [])"
  shows "\<exists>c \<in> set cs. cookie_name c = k \<and> cookie_value c = v"
proof -
  have "distinct (map fst (for_cookie cs []))" by (simp add: distinct_for_cookie)
  with assms have some: "map_of (for_cookie cs []) k = Some v" by simp
  show ?thesis
  proof (cases "filter (\<lambda>c. cookie_name c = k) cs = []")
    case True
    with some show ?thesis by (simp add: map_of_for_cookie)
  next
    case False
    from map_of_for_cookie_last [OF False] some
    have v: "v = cookie_value (last (filter (\<lambda>c. cookie_name c = k) cs))" by simp
    from False have "last (filter (\<lambda>c. cookie_name c = k) cs) \<in> set (filter (\<lambda>c. cookie_name c = k) cs)"
      by (rule last_in_set)
    with v show ?thesis by auto
  qed
qed

lemma for_cookie_key:
  assumes "c \<in> set cs"
  shows "cookie_name c \<in> fst ` set (for_cookie cs d)"
proof -
  from assms have "filter (\<lambda>c'. cookie_name c' = cookie_name c) cs \<noteq> []"
    by (auto simp: filter_empty_conv)
  from map_of_for_cookie_last [OF this]
  have "map_of (for_cookie cs d) (cookie_name c) \<noteq> None" by simp
  then show ?thesis by (simp add: map_of_eq_None_iff)
qed

lemma for_cookie_entry_unless_later:
  assumes "cs = earlier @ c # later"
    and "\<forall>c' \<in> set later. cookie_name c' = cookie_name c \<longrightarrow> cookie_value c' = cookie_value c"
  shows "(cookie_name c, cookie_value c) \<in> set (for_cookie cs d)"
proof -
  let ?P = "\<lambda>c'. cookie_name c' = cookie_name c"
  have split: "filter ?P cs = filter ?P earlier @ c # filter ?P later"
    unfolding assms(1) by simp
  then have ne: "filter ?P cs \<noteq> []" by simp
  have "cookie_value (last (filter ?P cs)) = cookie_value c"
  proof (cases "filter ?P later = []")
    case True
    with split show ?thesis by simp
  next
    case False
    then have "last (filter ?P later) \<in> set (filter ?P later)" by (rule last_in_set)
    with assms(2) have "cookie_value (last (filter ?P later)) = cookie_value c" by simp
    with split False show ?thesis by simp
  qed
  with map_of_for_cookie_last [OF ne, of d]
  have "map_of (for_cookie cs d) (cookie_name c) = Some (cookie_value c)" by simp
  then show ?thesis by (rule map_of_SomeD)
qed

subsection \<open>The loop over the mapping\<close>

text \<open>
  One round of the loop: an exception that is an instance of \<^verbatim>\<open>Exception\<close> is handled
  and the loop goes on with the cookies yielded so far; any other exception leaves the
  function.
\<close>

lemma try_all_Cons_caught:
  assumes "\<forall>e. raised (env f dn) = Some e \<longrightarrow> is_Exception e"
  shows "\<exists>logs. try_all env dn v ((n, f) # items) d w =
            try_all env dn v items (for_cookie (yielded (env f dn)) d)
              (w\<lparr>invocations := invocations w @ [(f, dn)], logged := logged w @ logs\<rparr>)"
proof (cases "raised (env f dn)")
  case None
  then have "try_all env dn v ((n, f) # items) d w =
            try_all env dn v items (for_cookie (yielded (env f dn)) d)
              (w\<lparr>invocations := invocations w @ [(f, dn)], logged := logged w @ []\<rparr>)"
    by (simp add: invoke_def Let_def)
  then show ?thesis by blast
next
  case (Some e)
  with assms have "is_Exception e" by simp
  with Some have "try_all env dn v ((n, f) # items) d w =
            try_all env dn v items (for_cookie (yielded (env f dn)) d)
              (w\<lparr>invocations := invocations w @ [(f, dn)],
                 logged := logged w @
                   (case e of
                      PermissionError m \<Rightarrow>
                        if v then [(WARNING, ''Permission denied while trying to load cookies from ''
                                      @ n @ ''. '' @ m)] else []
                    | OtherException m \<Rightarrow>
                        if v then [(ERROR, ''Error happened while trying to load cookies from ''
                                      @ n @ ''. '' @ m)] else []
                    | _ \<Rightarrow> [])\<rparr>)"
    by (cases e) (simp_all add: invoke_def Let_def logger_def)
  then show ?thesis by blast
qed

lemma try_all_Cons_propagated:
  assumes "raised (env f dn) = Some e" and "\<not> is_Exception e"
  shows "try_all env dn v ((n, f) # items) d w =
           (Inl e, w\<lparr>invocations := invocations w @ [(f, dn)]\<rparr>)"
  using assms by (cases e) (auto simp add: invoke_def Let_def)

lemma try_all_fst_world:
  "fst (try_all env dn v items d w) = fst (try_all env dn v' items d w')"
proof (induction items arbitrary: d w w')
  case Nil
  show ?case by simp
next
  case (Cons a items)
  obtain n f where a: "a = (n, f)" by (cases a)
  show ?case
  proof (cases "\<forall>e. raised (env f dn) = Some e \<longrightarrow> is_Exception e")
    case True
    from try_all_Cons_caught [where env=env and f=f and dn=dn, OF True] obtain w1 where
      1: "try_all env dn v ((n, f) # items) d w =
            try_all env dn v items (for_cookie (yielded (env f dn)) d) w1" by blast
    from try_all_Cons_caught [where env=env and f=f and dn=dn, OF True] obtain w2 where
      2: "try_all env dn v' ((n, f) # items) d w' =
            try_all env dn v' items (for_cookie (yielded (env f dn)) d) w2" by blast
    show ?thesis unfolding a 1 2 by (rule Cons.IH)
  next
    case False
    then obtain e where "raised (env f dn) = Some e" "\<not> is_Exception e" by blast
    then show ?thesis unfolding a by (simp del: try_all.simps add: try_all_Cons_propagated)
  qed
qed

lemma try_all_returns:
  "(\<forall>(n, f) \<in> set items. \<forall>e. raised (env f dn) = Some e \<longrightarrow> is_Exception e) \<Longrightarrow>
   fst (try_all env dn v items d w) =
     Inr (for_cookie (concat (map (\<lambda>(n, f). yielded (env f dn)) items)) d)"
proof (induction items arbitrary: d w)
  case Nil
  show ?case by simp
next
  case (Cons a items)
  obtain n f where a: "a = (n, f)" by (cases a)
  from Cons.prems a have hd: "\<forall>e. raised (env f dn) = Some e \<longrightarrow> is_Exception e"
    and tl: "\<forall>(n, f) \<in> set items. \<forall>e. raised (env f dn) = Some e \<longrightarrow> is_Exception e"
    by simp_all
  from try_all_Cons_caught [where env=env and f=f and dn=dn, OF hd] obtain w1 where
    "try_all env dn v ((n, f) # items) d w =
       try_all env dn v items (for_cookie (yielded (env f dn)) d) w1" by blast
  with Cons.IH [OF tl] show ?case by (simp del: try_all.simps add: a for_cookie_append)
qed

lemma try_all_Inr_D:
  "fst (try_all env dn v items d w) = Inr r \<Longrightarrow>
   (\<forall>(n, f) \<in> set items. \<forall>e. raised (env f dn) = Some e \<longrightarrow> is_Exception e)"
proof (induction items arbitrary: d w)
  case Nil
  show ?case by simp
next
  case (Cons a items)
  obtain n f where a: "a = (n, f)" by (cases a)
  have hd: "\<forall>e. raised (env f dn) = Some e \<longrightarrow> is_Exception e"
  proof (rule ccontr)
    assume "\<not> ?thesis"
    then obtain e where "raised (env f dn) = Some e" "\<not> is_Exception e" by blast
    with Cons.prems show False by (simp del: try_all.simps add: a try_all_Cons_propagated)
  qed
  from try_all_Cons_caught [where env=env and f=f and dn=dn, OF hd] obtain w1 where
    "try_all env dn v ((n, f) # items) d w =
       try_all env dn v items (for_cookie (yielded (env f dn)) d) w1" by blast
  with Cons.prems a have "fst (try_all env dn v items (for_cookie (yielded (env f dn)) d) w1) = Inr r"
    by (simp del: try_all.simps)
  from Cons.IH [OF this] hd show ?case by (simp add: a)
qed

lemma try_all_caught_snd:
  "(\<forall>(n, f) \<in> set items. \<forall>e. raised (env f dn) = Some e \<longrightarrow> is_Exception e) \<Longrightarrow>
   snd (try_all env dn v items d w) =
     w\<lparr>invocations := invocations w @ map (\<lambda>(n, f). (f, dn)) items,
       logged := logged w @
         (if v then
            concat (map (\<lambda>(n, f).
              case raised (env f dn) of
                Some (PermissionError e) \<Rightarrow>
                  [(WARNING, ''Permission denied while trying to load cookies from '' @ n @ ''. '' @ e)]
              | Some (OtherException e) \<Rightarrow>
                  [(ERROR, ''Error happened while trying to load cookies from '' @ n @ ''. '' @ e)]
              | _ \<Rightarrow> []) items)
          else [])\<rparr>"
proof (induction items arbitrary: d w)
  case Nil
  show ?case by simp
next
  case (Cons a items)
  obtain n f where a: "a = (n, f)" by (cases a)
  from Cons.prems a have hd: "\<forall>e. raised (env f dn) = Some e \<longrightarrow> is_Exception e"
    and tl: "\<forall>(n, f) \<in> set items. \<forall>e. raised (env f dn) = Some e \<longrightarrow> is_Exception e"
    by simp_all
  note IH = Cons.IH [OF tl]
  show ?case
  proof (cases "raised (env f dn)")
    case None
    then show ?thesis by (simp add: a invoke_def Let_def IH)
  next
    case (Some e)
    with hd have "is_Exception e" by simp
    with Some show ?thesis
      by (cases e) (simp_all add: a invoke_def Let_def IH logger_def)
  qed
qed

lemma try_all_effects:
  "\<exists>r calls logs. \<forall>w. try_all env dn v items d w =
      (r, w\<lparr>invocations := invocations w @ calls, logged := logged w @ logs\<rparr>)"
proof (induction items arbitrary: d)
  case Nil
  have "\<forall>w. try_all env dn v [] d w = (Inr d, w\<lparr>invocations := invocations w @ [], logged := logged w @ []\<rparr>)"
    by simp
  then show ?case by blast
next
  case (Cons a items)
  obtain n f where a: "a = (n, f)" by (cases a)
  from Cons.IH [of "for_cookie (yielded (env f dn)) d"] obtain r calls logs where
    IH: "\<And>w. try_all env dn v items (for_cookie (yielded (env f dn)) d) w =
      (r, w\<lparr>invocations := invocations w @ calls, logged := logged w @ logs\<rparr>)" by blast
  show ?case
  proof (cases "raised (env f dn)")
    case None
    then have "\<forall>w. try_all env dn v (a # items) d w =
      (r, w\<lparr>invocations := invocations w @ ((f, dn) # calls), logged := logged w @ logs\<rparr>)"
      by (simp add: a invoke_def Let_def IH)
    then show ?thesis by blast
  next
    case (Some e)
    show ?thesis
    proof (cases e)
      case (BrowserCookieError m)
      with Some have "\<forall>w. try_all env dn v (a # items) d w =
        (r, w\<lparr>invocations := invocations w @ ((f, dn) # calls), logged := logged w @ logs\<rparr>)"
        by (simp add: a invoke_def Let_def IH)
      then show ?thesis by blast
    next
      case (PermissionError m)
      with Some have "\<forall>w. try_all env dn v (a # items) d w =
        (r, w\<lparr>invocations := invocations w @ ((f, dn) # calls),
              logged := logged w @ ((if v then [(WARNING, ''Permission denied while trying to load cookies from '' @ n @ ''. '' @ m)] else []) @ logs)\<rparr>)"
        by (simp add: a invoke_def Let_def IH logger_def)
      then show ?thesis by blast
    next
      case (OtherException m)
      with Some have "\<forall>w. try_all env dn v (a # items) d w =
        (r, w\<lparr>invocations := invocations w @ ((f, dn) # calls),
              logged := logged w @ ((if v then [(ERROR, ''Error happened while trying to load cookies from '' @ n @ ''. '' @ m)] else []) @ logs)\<rparr>)"
        by (simp add: a invoke_def Let_def IH logger_def)
      then show ?thesis by blast
    next
      case (OtherBaseException m)
      with Some have "\<forall>w. try_all env dn v (a # items) d w =
        (Inl e, w\<lparr>invocations := invocations w @ [(f, dn)], logged := logged w @ []\<rparr>)"
        by (simp add: a invoke_def Let_def)
      then show ?thesis by blast
    qed
  qed
qed

subsection \<open>One reader, and the whole function\<close>

lemma try_one_effects:
  "\<exists>r calls logs. \<forall>w. try_one env dn v name f d w =
      (r, w\<lparr>invocations := invocations w @ calls, logged := logged w @ logs\<rparr>)"
proof (cases "raised (env f dn)")
  case None
  then have "\<forall>w. try_one env dn v name f d w =
    (Inr (for_cookie (yielded (env f dn)) d),
     w\<lparr>invocations := invocations w @ [(f, dn)], logged := logged w @ []\<rparr>)"
    by (simp add: try_one_def invoke_def Let_def)
  then show ?thesis by blast
next
  case (Some e)
  show ?thesis
  proof (cases v)
    case True
    show ?thesis
    proof (cases e)
      case (BrowserCookieError m)
      with Some True have "\<forall>w. try_one env dn v name f d w =
        (Inr (for_cookie (yielded (env f dn)) d),
         w\<lparr>invocations := invocations w @ [(f, dn)],
           logged := logged w @ [(INFO, ''No cookies found for '' @ name @ '' or browser not installed.'')]\<rparr>)"
        by (simp add: try_one_def invoke_def Let_def logger_def)
      then show ?thesis by blast
    next
      case (PermissionError m)
      with Some True have "\<forall>w. try_one env dn v name f d w =
        (Inr (for_cookie (yielded (env f dn)) d),
         w\<lparr>invocations := invocations w @ [(f, dn)],
           logged := logged w @ [(WARNING, ''Permission denied while trying to load cookies from '' @ name @ ''. '' @ m)]\<rparr>)"
        by (simp add: try_one_def invoke_def Let_def logger_def)
      then show ?thesis by blast
    next
      case (OtherException m)
      with Some True have "\<forall>w. try_one env dn v name f d w =
        (Inr (for_cookie (yielded (env f dn)) d),
         w\<lparr>invocations := invocations w @ [(f, dn)],
           logged := logged w @ [(ERROR, ''Error happened while trying to load cookies from '' @ name @ ''. '' @ m)]\<rparr>)"
        by (simp add: try_one_def invoke_def Let_def logger_def)
      then show ?thesis by blast
    next
      case (OtherBaseException m)
      with Some have "\<forall>w. try_one env dn v name f d w =
        (Inl e, w\<lparr>invocations := invocations w @ [(f, dn)], logged := logged w @ []\<rparr>)"
        by (simp add: try_one_def invoke_def Let_def)
      then show ?thesis by blast
    qed
  next
    case False
    show ?thesis
    proof (cases "is_Exception e")
      case True
      with Some False have "\<forall>w. try_one env dn v name f d w =
        (Inr (for_cookie (yielded (env f dn)) d),
         w\<lparr>invocations := invocations w @ [(f, dn)], logged := logged w @ []\<rparr>)"
        by (cases e) (simp_all add: try_one_def invoke_def Let_def)
      then show ?thesis by blast
    next
      case no: False
      with Some have "\<forall>w. try_one env dn v name f d w =
        (Inl e, w\<lparr>invocations := invocations w @ [(f, dn)], logged := logged w @ []\<rparr>)"
        by (cases e) (simp_all add: try_one_def invoke_def Let_def)
      then show ?thesis by blast
    qed
  qed
qed

lemma try_one_fst_world:
  "fst (try_one env dn v name f d w) = fst (try_one env dn v' name' f d w')"
  by (simp add: try_one_def invoke_def Let_def split: option.splits py_exception.splits)

lemma load_fst_world:
  "fst (load_browser_cookies env dn v bn w) = fst (load_browser_cookies env dn v' bn w')"
proof (cases bn)
  case None
  then show ?thesis
    by (simp add: load_browser_cookies_def try_all_fst_world [of env dn v _ _ w v' w'])
next
  case (Some name)
  show ?thesis
  proof (cases "name = []")
    case True
    with Some show ?thesis
      by (simp add: load_browser_cookies_def try_all_fst_world [of env dn v _ _ w v' w'])
  next
    case False
    with Some show ?thesis
      by (cases "map_of BROWSER_MAPPING (lower name)")
         (simp_all add: load_browser_cookies_def try_one_fst_world [of env dn v name _ _ w v' name w'])
  qed
qed

lemma load_effects:
  "\<exists>r calls logs. \<forall>w. load_browser_cookies env dn v bn w =
      (r, w\<lparr>invocations := invocations w @ calls, logged := logged w @ logs\<rparr>)"
proof -
  have all: "\<exists>r calls logs. \<forall>w. try_all env dn v BROWSER_MAPPING [] w =
      (r, w\<lparr>invocations := invocations w @ calls, logged := logged w @ logs\<rparr>)"
    by (rule try_all_effects)
  show ?thesis
  proof (cases bn)
    case None
    with all show ?thesis by (simp add: load_browser_cookies_def)
  next
    case (Some name)
    show ?thesis
    proof (cases "name = []")
      case True
      with Some all show ?thesis by (simp add: load_browser_cookies_def)
    next
      case False
      show ?thesis
      proof (cases "map_of BROWSER_MAPPING (lower name)")
        case None
        with Some False have "\<forall>w. load_browser_cookies env dn v bn w =
          (Inr [], w\<lparr>invocations := invocations w @ [],
             logged := logged w @ [(WARNING, ''Invalid browser name '' @ [CHR 0x27] @ name @ [CHR 0x27]
                       @ ''. Supported names are: ''
                       @ join '', '' (map fst BROWSER_MAPPING)
                       @ ''. No cookies will be loaded.'')]\<rparr>)"
          by (simp add: load_browser_cookies_def logger_def)
        then show ?thesis by blast
      next
        case (Some f)
        with \<open>bn = Some name\<close> False
        have "load_browser_cookies env dn v bn = try_one env dn v name f []"
          by (simp add: load_browser_cookies_def fun_eq_iff)
        with try_one_effects [of env dn v name f "[]"] show ?thesis by simp
      qed
    qed
  qed
qed

lemma try_all_invocations_verbose:
  "invocations w = invocations w' \<Longrightarrow>
   invocations (snd (try_all env dn v items d w)) =
   invocations (snd (try_all env dn v' items d w'))"
proof (induction items arbitrary: d w w')
  case Nil
  then show ?case by simp
next
  case (Cons a items)
  obtain n f where a: "a = (n, f)" by (cases a)
  show ?case
  proof (cases "\<forall>e. raised (env f dn) = Some e \<longrightarrow> is_Exception e")
    case True
    from try_all_Cons_caught [where env=env and f=f and dn=dn, OF True] obtain l1 where
      1: "try_all env dn v ((n, f) # items) d w =
            try_all env dn v items (for_cookie (yielded (env f dn)) d)
              (w\<lparr>invocations := invocations w @ [(f, dn)], logged := logged w @ l1\<rparr>)"
      by blast
    from try_all_Cons_caught [where env=env and f=f and dn=dn, OF True] obtain l2 where
      2: "try_all env dn v' ((n, f) # items) d w' =
            try_all env dn v' items (for_cookie (yielded (env f dn)) d)
              (w'\<lparr>invocations := invocations w' @ [(f, dn)], logged := logged w' @ l2\<rparr>)"
      by blast
    show ?thesis unfolding a 1 2 by (rule Cons.IH) (simp add: Cons.prems)
  next
    case False
    then obtain e where "raised (env f dn) = Some e" "\<not> is_Exception e" by blast
    then show ?thesis unfolding a
      by (simp del: try_all.simps add: try_all_Cons_propagated Cons.prems)
  qed
qed

lemma try_one_invocations_verbose:
  "invocations (snd (try_one env dn v name f d w)) =
   invocations (snd (try_one env dn v' name f d w))"
  by (simp add: try_one_def invoke_def Let_def logger_def split: option.splits py_exception.splits)

lemma lower_Nil_iff: "lower name = [] \<longleftrightarrow> name = []"
  by (simp add: lower_def)

lemma keys_BROWSER_MAPPING:
  "map fst BROWSER_MAPPING =
     [''firefox'', ''chrome'', ''chromium'', ''opera'', ''opera_gx'',
      ''brave'', ''edge'', ''vivaldi'', ''safari'', ''librewolf'']"
  by (simp add: BROWSER_MAPPING_def)

lemma try_one_invocations:
  "invocations (snd (try_one env dn v name f d w)) = invocations w @ [(f, dn)]"
  by (simp add: try_one_def invoke_def Let_def logger_def split: option.splits py_exception.splits)

lemma load_supported:
  assumes "name \<noteq> []" and "map_of BROWSER_MAPPING (lower name) = Some f"
  shows "load_browser_cookies env dn v (Some name) w = try_one env dn v name f [] w"
  using assms by (simp add: load_browser_cookies_def)

lemma try_all_invocations_prefix:
  "\<exists>k\<le>length items. invocations (snd (try_all env dn v items d w)) =
      invocations w @ map (\<lambda>(n, f). (f, dn)) (take k items)"
proof (induction items arbitrary: d w)
  case Nil
  show ?case by simp
next
  case (Cons a items)
  obtain n f where a: "a = (n, f)" by (cases a)
  show ?case
  proof (cases "\<forall>e. raised (env f dn) = Some e \<longrightarrow> is_Exception e")
    case True
    from try_all_Cons_caught [where env=env and f=f and dn=dn, OF True] obtain l1 where
      1: "try_all env dn v ((n, f) # items) d w =
            try_all env dn v items (for_cookie (yielded (env f dn)) d)
              (w\<lparr>invocations := invocations w @ [(f, dn)], logged := logged w @ l1\<rparr>)"
      by blast
    from Cons.IH [of "for_cookie (yielded (env f dn)) d"
        "w\<lparr>invocations := invocations w @ [(f, dn)], logged := logged w @ l1\<rparr>"]
    obtain k where k: "k \<le> length items"
      "invocations (snd (try_all env dn v items (for_cookie (yielded (env f dn)) d)
              (w\<lparr>invocations := invocations w @ [(f, dn)], logged := logged w @ l1\<rparr>))) =
       (invocations w @ [(f, dn)]) @ map (\<lambda>(n, f). (f, dn)) (take k items)"
      by auto
    have "Suc k \<le> length (a # items)" using k(1) by simp
    moreover have "invocations (snd (try_all env dn v (a # items) d w)) =
      invocations w @ map (\<lambda>(n, f). (f, dn)) (take (Suc k) (a # items))"
      unfolding a 1 k(2) by simp
    ultimately show ?thesis by blast
  next
    case False
    then obtain e where "raised (env f dn) = Some e" "\<not> is_Exception e" by blast
    then have "invocations (snd (try_all env dn v (a # items) d w)) =
      invocations w @ map (\<lambda>(n, f). (f, dn)) (take (Suc 0) (a # items))"
      unfolding a by (simp del: try_all.simps add: try_all_Cons_propagated)
    moreover have "Suc 0 \<le> length (a # items)" by simp
    ultimately show ?thesis by blast
  qed
qed

lemma try_one_caught:
  assumes "\<forall>e. raised (env f dn) = Some e \<longrightarrow> is_Exception e"
  shows "try_one env dn v name f d w =
    (Inr (for_cookie (yielded (env f dn)) d),
     w\<lparr>invocations := invocations w @ [(f, dn)],
       logged := logged w @
         (if v then
            (case raised (env f dn) of
               None \<Rightarrow> []
             | Some (BrowserCookieError e) \<Rightarrow>
                 [(INFO, ''No cookies found for '' @ name @ '' or browser not installed.'')]
             | Some (PermissionError e) \<Rightarrow>
                 [(WARNING, ''Permission denied while trying to load cookies from '' @ name @ ''. '' @ e)]
             | Some (OtherException e) \<Rightarrow>
                 [(ERROR, ''Error happened while trying to load cookies from '' @ name @ ''. '' @ e)]
             | Some (OtherBaseException e) \<Rightarrow> [])
          else [])\<rparr>)"
proof (cases "raised (env f dn)")
  case None
  then show ?thesis by (simp add: try_one_def invoke_def Let_def)
next
  case (Some e)
  with assms have "is_Exception e" by simp
  with Some show ?thesis
    by (cases e) (simp_all add: try_one_def invoke_def Let_def logger_def)
qed

lemma values_BROWSER_MAPPING:
  "map snd BROWSER_MAPPING =
     [firefox, chrome, chromium, opera, opera_gx, brave, edge, vivaldi, safari, librewolf]"
  by (simp add: BROWSER_MAPPING_def)

lemma calls_BROWSER_MAPPING:
  "map (\<lambda>(n, f). (f, dn)) BROWSER_MAPPING =
     [(firefox, dn), (chrome, dn), (chromium, dn), (opera, dn), (opera_gx, dn),
      (brave, dn), (edge, dn), (vivaldi, dn), (safari, dn), (librewolf, dn)]"
  by (simp add: BROWSER_MAPPING_def)

lemma load_all_browsers:
  "load_browser_cookies env dn v None w = try_all env dn v BROWSER_MAPPING [] w"
  by (simp add: load_browser_cookies_def)

lemma try_all_Inl_D:
  "fst (try_all env dn v items d w) = Inl e \<Longrightarrow>
   \<exists>(n, f) \<in> set items. raised (env f dn) = Some e \<and> \<not> is_Exception e"
proof (induction items arbitrary: d w)
  case Nil
  then show ?case by simp
next
  case (Cons a items)
  obtain n f where a: "a = (n, f)" by (cases a)
  show ?case
  proof (cases "\<forall>e. raised (env f dn) = Some e \<longrightarrow> is_Exception e")
    case True
    from try_all_Cons_caught [where env=env and f=f and dn=dn, OF True] obtain l1 where
      1: "try_all env dn v ((n, f) # items) d w =
            try_all env dn v items (for_cookie (yielded (env f dn)) d)
              (w\<lparr>invocations := invocations w @ [(f, dn)], logged := logged w @ l1\<rparr>)"
      by blast
    with Cons.prems have "fst (try_all env dn v items (for_cookie (yielded (env f dn)) d)
              (w\<lparr>invocations := invocations w @ [(f, dn)], logged := logged w @ l1\<rparr>)) = Inl e"
      by (simp del: try_all.simps add: a)
    from Cons.IH [OF this] show ?thesis by auto
  next
    case False
    then obtain e' where e': "raised (env f dn) = Some e'" "\<not> is_Exception e'" by blast
    with Cons.prems have "e = e'"
      by (simp del: try_all.simps add: a try_all_Cons_propagated)
    with e' show ?thesis by (simp add: a)
  qed
qed

lemma try_one_result:
  "fst (try_one env dn v name f d w) =
     (case raised (env f dn) of
        None \<Rightarrow> Inr (for_cookie (yielded (env f dn)) d)
      | Some e \<Rightarrow> if is_Exception e then Inr (for_cookie (yielded (env f dn)) d) else Inl e)"
  by (simp add: try_one_def invoke_def Let_def split: option.splits py_exception.splits)

text \<open>The definitions that a run on given readers unfolds.\<close>

lemmas evals = load_browser_cookies_def lower_def lower_char_def BROWSER_MAPPING_def
  try_one_def invoke_def patched_def return_value_def side_effect_def mock_cookie_def
  fresh_def logger_def Let_def

text \<open>The run on the readers fixed above.\<close>

lemma merging_mocks_run:
  "load_browser_cookies merging_mocks ''google.com'' False None fresh =
     (Inr [(''ANOTHER_COOKIE'', ''firefox_another_val''),
           (''__Secure-1PSID'', ''chrome_psid''),
           (''OTHER_COOKIE'', ''chrome_other_val'')],
      \<lparr>invocations =
         [(firefox, ''google.com''), (chrome, ''google.com''), (chromium, ''google.com''),
          (opera, ''google.com''), (opera_gx, ''google.com''), (brave, ''google.com''),
          (edge, ''google.com''), (vivaldi, ''google.com''), (safari, ''google.com''),
          (librewolf, ''google.com'')],
       logged = []\<rparr>)"
  by (simp add: evals merging_mocks_def)

section \<open>The claims\<close>

subsection \<open>C1: name collisions\<close>

text \<open>
  Claim C1. In all-browsers mode, when the call returns a dict, the value of a cookie
  name \<open>k\<close> in it is decided by the last reader, in the iteration order of
  \<^verbatim>\<open>BROWSER_MAPPING\<close>, that yields a cookie named \<open>k\<close>: split the mapping at that
  reader, so that no reader after it yields the name; then the dict maps \<open>k\<close> to the
  value that this reader yields for it (the value of its last cookie of that name, when
  it yields several). When two or more readers yield the name this is the reader that
  comes later; when exactly one reader yields the name it is that reader.
\<close>

theorem later_reader_wins_on_name_collision:
  assumes "fst (load_browser_cookies env domain_name verbose None w) = Inr d"
    and "BROWSER_MAPPING = before @ (cookie_fn_name, cookie_fn) # after"
    and "\<exists>c \<in> set (yielded (env cookie_fn domain_name)). cookie_name c = k"
    and "\<forall>(n, g) \<in> set after. \<forall>c \<in> set (yielded (env g domain_name)). cookie_name c \<noteq> k"
  shows "map_of d k =
    Some (cookie_value
           (last (filter (\<lambda>c. cookie_name c = k) (yielded (env cookie_fn domain_name)))))"
proof -
  let ?ys = "\<lambda>(n, f). yielded (env f domain_name)"
  let ?P = "\<lambda>c. cookie_name c = k"
  from assms(1) have ret: "fst (try_all env domain_name verbose BROWSER_MAPPING [] w) = Inr d"
    by (simp add: load_all_browsers)
  from try_all_Inr_D [OF ret] have caught: "\<forall>(n, f) \<in> set BROWSER_MAPPING.
      \<forall>e. raised (env f domain_name) = Some e \<longrightarrow> is_Exception e" .
  from try_all_returns [where env=env and dn=domain_name and items=BROWSER_MAPPING
      and v=verbose and d="[]" and w=w, OF caught] ret
  have d: "d = for_cookie (concat (map ?ys BROWSER_MAPPING)) []" by simp
  from assms(4) have later: "filter ?P (concat (map ?ys after)) = []"
    by (auto simp: filter_empty_conv)
  from assms(3) have here: "filter ?P (yielded (env cookie_fn domain_name)) \<noteq> []"
    by (auto simp: filter_empty_conv)
  have split: "filter ?P (concat (map ?ys BROWSER_MAPPING)) =
      filter ?P (concat (map ?ys before)) @ filter ?P (yielded (env cookie_fn domain_name))"
    unfolding assms(2) using later by simp
  with here have ne: "filter ?P (concat (map ?ys BROWSER_MAPPING)) \<noteq> []" by simp
  from map_of_for_cookie_last [OF ne, of "[]"] show ?thesis
    unfolding d split using here by simp
qed

theorem later_reader_wins_on_name_collision_witness:
  "fst (load_browser_cookies merging_mocks ''google.com'' False None fresh) =
     Inr [(''ANOTHER_COOKIE'', ''firefox_another_val''),
          (''__Secure-1PSID'', ''chrome_psid''),
          (''OTHER_COOKIE'', ''chrome_other_val'')] \<and>
   map_of [(''ANOTHER_COOKIE'', ''firefox_another_val''),
           (''__Secure-1PSID'', ''chrome_psid''),
           (''OTHER_COOKIE'', ''chrome_other_val'')] ''__Secure-1PSID'' = Some ''chrome_psid'' \<and>
   map_of [(''ANOTHER_COOKIE'', ''firefox_another_val''),
           (''__Secure-1PSID'', ''chrome_psid''),
           (''OTHER_COOKIE'', ''chrome_other_val'')] ''ANOTHER_COOKIE'' =
     Some ''firefox_another_val''"
proof -
  let ?D = "[(''ANOTHER_COOKIE'', ''firefox_another_val''),
             (''__Secure-1PSID'', ''chrome_psid''),
             (''OTHER_COOKIE'', ''chrome_other_val'')]"
  have run: "fst (load_browser_cookies merging_mocks ''google.com'' False None fresh) = Inr ?D"
    by (simp add: merging_mocks_run)
  have s1: "BROWSER_MAPPING = [(''firefox'', firefox)] @ (''chrome'', chrome) #
      [(''chromium'', chromium), (''opera'', opera), (''opera_gx'', opera_gx),
       (''brave'', brave), (''edge'', edge), (''vivaldi'', vivaldi), (''safari'', safari),
       (''librewolf'', librewolf)]"
    by (simp add: BROWSER_MAPPING_def)
  have y1: "\<exists>c \<in> set (yielded (merging_mocks chrome ''google.com'')).
      cookie_name c = ''__Secure-1PSID''"
    by (simp add: merging_mocks_def patched_def return_value_def mock_cookie_def)
  have l1: "\<forall>(n, g) \<in> set [(''chromium'', chromium), (''opera'', opera),
       (''opera_gx'', opera_gx), (''brave'', brave), (''edge'', edge), (''vivaldi'', vivaldi),
       (''safari'', safari), (''librewolf'', librewolf)].
     \<forall>c \<in> set (yielded (merging_mocks g ''google.com'')). cookie_name c \<noteq> ''__Secure-1PSID''"
    by (simp add: merging_mocks_def patched_def return_value_def side_effect_def mock_cookie_def)
  have s2: "BROWSER_MAPPING = [] @ (''firefox'', firefox) #
      [(''chrome'', chrome), (''chromium'', chromium), (''opera'', opera),
       (''opera_gx'', opera_gx), (''brave'', brave), (''edge'', edge), (''vivaldi'', vivaldi),
       (''safari'', safari), (''librewolf'', librewolf)]"
    by (simp add: BROWSER_MAPPING_def)
  have y2: "\<exists>c \<in> set (yielded (merging_mocks firefox ''google.com'')).
      cookie_name c = ''ANOTHER_COOKIE''"
    by (simp add: merging_mocks_def patched_def return_value_def mock_cookie_def)
  have l2: "\<forall>(n, g) \<in> set [(''chrome'', chrome), (''chromium'', chromium), (''opera'', opera),
       (''opera_gx'', opera_gx), (''brave'', brave), (''edge'', edge), (''vivaldi'', vivaldi),
       (''safari'', safari), (''librewolf'', librewolf)].
     \<forall>c \<in> set (yielded (merging_mocks g ''google.com'')). cookie_name c \<noteq> ''ANOTHER_COOKIE''"
    by (simp add: merging_mocks_def patched_def return_value_def side_effect_def mock_cookie_def)
  from later_reader_wins_on_name_collision
    [where env=merging_mocks and domain_name="''google.com''" and verbose=False and w=fresh
       and before="[(''firefox'', firefox)]" and cookie_fn_name="''chrome''" and cookie_fn=chrome,
     OF run s1 y1 l1]
  have 1: "map_of ?D ''__Secure-1PSID'' = Some ''chrome_psid''"
    by (simp add: merging_mocks_def patched_def return_value_def mock_cookie_def)
  from later_reader_wins_on_name_collision
    [where env=merging_mocks and domain_name="''google.com''" and verbose=False and w=fresh
       and before="[]" and cookie_fn_name="''firefox''" and cookie_fn=firefox,
     OF run s2 y2 l2]
  have 2: "map_of ?D ''ANOTHER_COOKIE'' = Some ''firefox_another_val''"
    by (simp add: merging_mocks_def patched_def return_value_def mock_cookie_def)
  from run 1 2 show ?thesis by blast
qed

subsection \<open>C2: partial failure\<close>

text \<open>
  Claim C2 says that, when some readers fail, the returned dict still contains every
  cookie yielded by the readers that succeeded. The dict has one value for a name, so a
  cookie is overwritten when a cookie of the same name is yielded after it. In the
  test \<^verbatim>\<open>test_load_no_specific_browser_merges_cookies\<close> opera and safari fail, firefox
  succeeds and yields \<^verbatim>\<open>__Secure-1PSID\<close> with the value \<^verbatim>\<open>firefox_override_psid\<close>, and
  the returned dict does not contain this cookie: chrome, which comes later, yields the
  name with the value \<^verbatim>\<open>chrome_psid\<close>.
\<close>

theorem succeeded_cookie_overwritten_counterexample:
  "load_browser_cookies merging_mocks ''google.com'' False None fresh =
     (Inr [(''ANOTHER_COOKIE'', ''firefox_another_val''),
           (''__Secure-1PSID'', ''chrome_psid''),
           (''OTHER_COOKIE'', ''chrome_other_val'')],
      \<lparr>invocations =
         [(firefox, ''google.com''), (chrome, ''google.com''), (chromium, ''google.com''),
          (opera, ''google.com''), (opera_gx, ''google.com''), (brave, ''google.com''),
          (edge, ''google.com''), (vivaldi, ''google.com''), (safari, ''google.com''),
          (librewolf, ''google.com'')],
       logged = []\<rparr>) \<and>
   raised (merging_mocks opera ''google.com'') = Some (BrowserCookieError ''Opera error'') \<and>
   raised (merging_mocks firefox ''google.com'') = None \<and>
   mock_cookie ''__Secure-1PSID'' ''firefox_override_psid''
     \<in> set (yielded (merging_mocks firefox ''google.com'')) \<and>
   (''__Secure-1PSID'', ''firefox_override_psid'')
     \<notin> set [(''ANOTHER_COOKIE'', ''firefox_another_val''),
              (''__Secure-1PSID'', ''chrome_psid''),
              (''OTHER_COOKIE'', ''chrome_other_val'')]"
  by (simp add: merging_mocks_run)
     (simp add: merging_mocks_def patched_def return_value_def side_effect_def)

text \<open>
  Claim C2, amended. In all-browsers mode, when the readers that fail raise
  \<^verbatim>\<open>BrowserCookieError\<close>, \<^verbatim>\<open>PermissionError\<close> or any other instance of \<^verbatim>\<open>Exception\<close>,
  the call does not abort: it returns a dict, and it has invoked all the readers of the
  mapping, those after a failed one included. The failures take nothing away: the
  dict is the one that the call returns when the same readers yield the same cookies and
  none of them raises. For every reader that succeeded and every cookie it yielded, the
  name of the cookie is a key of the dict, and the dict contains the cookie itself
  unless a cookie yielded later in the pass (later by the same reader, or by a reader
  after it in the mapping) has the same name and another value.
\<close>

theorem failing_readers_do_not_abort_the_load:
  assumes "\<forall>(n, f) \<in> set BROWSER_MAPPING.
             \<forall>e. raised (env f domain_name) = Some e \<longrightarrow> is_Exception e"
  shows "\<exists>d w'. load_browser_cookies env domain_name verbose None w = (Inr d, w') \<and>
    invocations w' = invocations w @ map (\<lambda>(n, f). (f, domain_name)) BROWSER_MAPPING \<and>
    fst (load_browser_cookies (\<lambda>f dn. (env f dn)\<lparr>raised := None\<rparr>) domain_name verbose None w) =
      Inr d \<and>
    (\<forall>(n, f) \<in> set BROWSER_MAPPING. raised (env f domain_name) = None \<longrightarrow>
       (\<forall>c \<in> set (yielded (env f domain_name)). cookie_name c \<in> fst ` set d)) \<and>
    (BROWSER_MAPPING = before @ (cookie_fn_name, cookie_fn) # after \<and>
     raised (env cookie_fn domain_name) = None \<and>
     yielded (env cookie_fn domain_name) = earlier @ c # later \<and>
     (\<forall>c' \<in> set later. cookie_name c' = cookie_name c \<longrightarrow> cookie_value c' = cookie_value c) \<and>
     (\<forall>(n, g) \<in> set after. \<forall>c' \<in> set (yielded (env g domain_name)).
        cookie_name c' = cookie_name c \<longrightarrow> cookie_value c' = cookie_value c) \<longrightarrow>
     (cookie_name c, cookie_value c) \<in> set d)"
proof -
  let ?ys = "\<lambda>(n, f). yielded (env f domain_name)"
  let ?all = "concat (map ?ys BROWSER_MAPPING)"
  let ?env' = "\<lambda>f dn. (env f dn)\<lparr>raised := None\<rparr>"
  obtain r w' where rw: "try_all env domain_name verbose BROWSER_MAPPING [] w = (r, w')"
    by (cases "try_all env domain_name verbose BROWSER_MAPPING [] w")
  from try_all_returns [where env=env and dn=domain_name and items=BROWSER_MAPPING
      and v=verbose and d="[]" and w=w, OF assms] rw
  have r: "r = Inr (for_cookie ?all [])" by simp
  from try_all_caught_snd [where env=env and dn=domain_name and items=BROWSER_MAPPING
      and v=verbose and d="[]" and w=w, OF assms] rw
  have calls: "invocations w' =
      invocations w @ map (\<lambda>(n, f). (f, domain_name)) BROWSER_MAPPING" by auto
  have "\<forall>(n, f) \<in> set BROWSER_MAPPING.
      \<forall>e. raised (?env' f domain_name) = Some e \<longrightarrow> is_Exception e" by simp
  from try_all_returns [where env="?env'" and dn=domain_name and items=BROWSER_MAPPING
      and v=verbose and d="[]" and w=w, OF this]
  have nofail: "fst (load_browser_cookies ?env' domain_name verbose None w) =
      Inr (for_cookie ?all [])"
    by (simp add: load_all_browsers)
  have keys: "cookie_name c \<in> fst ` set (for_cookie ?all [])"
    if "(n, f) \<in> set BROWSER_MAPPING" "c \<in> set (yielded (env f domain_name))" for n f c
  proof -
    from that have "c \<in> set ?all" by auto
    then show ?thesis by (rule for_cookie_key)
  qed
  have entry: "(cookie_name c, cookie_value c) \<in> set (for_cookie ?all [])"
    if split: "BROWSER_MAPPING = before @ (cookie_fn_name, cookie_fn) # after"
      and ys: "yielded (env cookie_fn domain_name) = earlier @ c # later"
      and l1: "\<forall>c' \<in> set later. cookie_name c' = cookie_name c \<longrightarrow> cookie_value c' = cookie_value c"
      and l2: "\<forall>(n, g) \<in> set after. \<forall>c' \<in> set (yielded (env g domain_name)).
        cookie_name c' = cookie_name c \<longrightarrow> cookie_value c' = cookie_value c"
  proof -
    have "?all = (concat (map ?ys before) @ earlier) @ c # (later @ concat (map ?ys after))"
      unfolding split by (simp add: ys)
    moreover from l1 l2 have "\<forall>c' \<in> set (later @ concat (map ?ys after)).
        cookie_name c' = cookie_name c \<longrightarrow> cookie_value c' = cookie_value c" by auto
    ultimately show ?thesis by (rule for_cookie_entry_unless_later)
  qed
  have "load_browser_cookies env domain_name verbose None w = (Inr (for_cookie ?all []), w')"
    using rw r by (simp add: load_all_browsers)
  with calls keys entry nofail show ?thesis by blast
qed

theorem failing_readers_do_not_abort_the_load_witness:
  "raised (merging_mocks opera ''google.com'') = Some (BrowserCookieError ''Opera error'') \<and>
   raised (merging_mocks chrome ''google.com'') = None \<and>
   yielded (merging_mocks chrome ''google.com'') =
     [] @ mock_cookie ''__Secure-1PSID'' ''chrome_psid'' #
       [mock_cookie ''OTHER_COOKIE'' ''chrome_other_val''] \<and>
   (\<exists>d w'. load_browser_cookies merging_mocks ''google.com'' True None fresh = (Inr d, w') \<and>
      invocations w' =
        [(firefox, ''google.com''), (chrome, ''google.com''), (chromium, ''google.com''),
         (opera, ''google.com''), (opera_gx, ''google.com''), (brave, ''google.com''),
         (edge, ''google.com''), (vivaldi, ''google.com''), (safari, ''google.com''),
         (librewolf, ''google.com'')] \<and>
      (''__Secure-1PSID'', ''chrome_psid'') \<in> set d)"
proof -
  let ?c = "mock_cookie ''__Secure-1PSID'' ''chrome_psid''"
  let ?after = "[(''chromium'', chromium), (''opera'', opera), (''opera_gx'', opera_gx),
       (''brave'', brave), (''edge'', edge), (''vivaldi'', vivaldi), (''safari'', safari),
       (''librewolf'', librewolf)]"
  have h: "\<forall>(n, f) \<in> set BROWSER_MAPPING.
      \<forall>e. raised (merging_mocks f ''google.com'') = Some e \<longrightarrow> is_Exception e"
    by (simp add: BROWSER_MAPPING_def merging_mocks_def patched_def return_value_def side_effect_def)
  have f0: "raised (merging_mocks opera ''google.com'') = Some (BrowserCookieError ''Opera error'')"
    by (simp add: merging_mocks_def patched_def return_value_def side_effect_def)
  have f1: "raised (merging_mocks chrome ''google.com'') = None"
    by (simp add: merging_mocks_def patched_def return_value_def side_effect_def)
  have s1: "BROWSER_MAPPING = [(''firefox'', firefox)] @ (''chrome'', chrome) # ?after"
    by (simp add: BROWSER_MAPPING_def)
  have y1: "yielded (merging_mocks chrome ''google.com'') =
      [] @ ?c # [mock_cookie ''OTHER_COOKIE'' ''chrome_other_val'']"
    by (simp add: merging_mocks_def patched_def return_value_def)
  have l1: "\<forall>c' \<in> set [mock_cookie ''OTHER_COOKIE'' ''chrome_other_val''].
      cookie_name c' = cookie_name ?c \<longrightarrow> cookie_value c' = cookie_value ?c"
    by (simp add: mock_cookie_def)
  have l2: "\<forall>(n, g) \<in> set ?after. \<forall>c' \<in> set (yielded (merging_mocks g ''google.com'')).
      cookie_name c' = cookie_name ?c \<longrightarrow> cookie_value c' = cookie_value ?c"
    by (simp add: merging_mocks_def patched_def return_value_def side_effect_def mock_cookie_def)
  from failing_readers_do_not_abort_the_load
    [where env=merging_mocks and domain_name="''google.com''" and verbose=True and w=fresh
       and before="[(''firefox'', firefox)]" and cookie_fn_name="''chrome''" and cookie_fn=chrome
       and after="?after" and earlier="[]" and c="?c"
       and later="[mock_cookie ''OTHER_COOKIE'' ''chrome_other_val'']", OF h]
  obtain d w' where ret: "load_browser_cookies merging_mocks ''google.com'' True None fresh = (Inr d, w')"
    and calls: "invocations w' =
      invocations fresh @ map (\<lambda>(n, f). (f, ''google.com'')) BROWSER_MAPPING"
    and ok: "BROWSER_MAPPING = [(''firefox'', firefox)] @ (''chrome'', chrome) # ?after \<and>
     raised (merging_mocks chrome ''google.com'') = None \<and>
     yielded (merging_mocks chrome ''google.com'') =
       [] @ ?c # [mock_cookie ''OTHER_COOKIE'' ''chrome_other_val''] \<and>
     (\<forall>c' \<in> set [mock_cookie ''OTHER_COOKIE'' ''chrome_other_val''].
        cookie_name c' = cookie_name ?c \<longrightarrow> cookie_value c' = cookie_value ?c) \<and>
     (\<forall>(n, g) \<in> set ?after. \<forall>c' \<in> set (yielded (merging_mocks g ''google.com'')).
        cookie_name c' = cookie_name ?c \<longrightarrow> cookie_value c' = cookie_value ?c) \<longrightarrow>
     (cookie_name ?c, cookie_value ?c) \<in> set d"
    by blast
  from ok s1 f1 y1 l1 l2 have "(cookie_name ?c, cookie_value ?c) \<in> set d" by blast
  then have 1: "(''__Secure-1PSID'', ''chrome_psid'') \<in> set d" by (simp add: mock_cookie_def)
  from calls have 2: "invocations w' =
        [(firefox, ''google.com''), (chrome, ''google.com''), (chromium, ''google.com''),
         (opera, ''google.com''), (opera_gx, ''google.com''), (brave, ''google.com''),
         (edge, ''google.com''), (vivaldi, ''google.com''), (safari, ''google.com''),
         (librewolf, ''google.com'')]"
    by (simp add: fresh_def BROWSER_MAPPING_def)
  from ret 1 2 f0 f1 y1 show ?thesis by blast
qed

subsection \<open>C3: which exceptions are handled\<close>

text \<open>
  Claim C3 says that no exception raised by a reader, of any class, leaves the function.
  The last clause of both \<^verbatim>\<open>try\<close> statements is \<^verbatim>\<open>except Exception\<close>, so an exception
  that is not an instance of \<^verbatim>\<open>Exception\<close> (\<^verbatim>\<open>KeyboardInterrupt\<close>, \<^verbatim>\<open>SystemExit\<close>)
  matches no clause. Here the reader \<^verbatim>\<open>bc3.chrome\<close> raises \<^verbatim>\<open>KeyboardInterrupt\<close>: with
  \<^verbatim>\<open>browser_name = "chrome"\<close>, and with \<^verbatim>\<open>browser_name = None\<close>, the call does not return
  a dict, the exception leaves the function, nothing is logged, and in the second call
  the eight readers after \<^verbatim>\<open>chrome\<close> are not invoked.
\<close>

theorem non_Exception_propagates_counterexample:
  "load_browser_cookies
     (patched [(chrome, side_effect (OtherBaseException ''KeyboardInterrupt''))])
     ''google.com'' True (Some ''chrome'') fresh =
   (Inl (OtherBaseException ''KeyboardInterrupt''),
    \<lparr>invocations = [(chrome, ''google.com'')], logged = []\<rparr>) \<and>
   load_browser_cookies
     (patched [(chrome, side_effect (OtherBaseException ''KeyboardInterrupt''))])
     ''google.com'' True None fresh =
   (Inl (OtherBaseException ''KeyboardInterrupt''),
    \<lparr>invocations = [(firefox, ''google.com''), (chrome, ''google.com'')], logged = []\<rparr>)"
  by (simp add: evals)

text \<open>
  Claim C3, amended. When every exception that a reader raises is an instance of
  \<^verbatim>\<open>Exception\<close> (\<^verbatim>\<open>BrowserCookieError\<close>, \<^verbatim>\<open>PermissionError\<close> or any other subclass), the
  call returns a dict, in both modes and for every combination of reader outcomes. A
  read failure is only logged, and only when \<^verbatim>\<open>verbose\<close> is true: in all-browsers mode
  the new log records are one warning for each \<^verbatim>\<open>PermissionError\<close> and one error for
  each other exception, in the order of the mapping, and none for a
  \<^verbatim>\<open>BrowserCookieError\<close>; for a supported browser name the new log records are at most
  one, an info, a warning or an error for the three classes.
\<close>

theorem exceptions_of_class_Exception_never_propagate:
  assumes "\<forall>cookie_fn e. raised (env cookie_fn domain_name) = Some e \<longrightarrow> is_Exception e"
  shows "\<exists>d w'. load_browser_cookies env domain_name verbose browser_name w = (Inr d, w') \<and>
    (browser_name = None \<or> browser_name = Some [] \<longrightarrow>
       logged w' = logged w @
         (if verbose then
            concat (map (\<lambda>(cookie_fn_name, cookie_fn).
              case raised (env cookie_fn domain_name) of
                Some (PermissionError e) \<Rightarrow>
                  [(WARNING, ''Permission denied while trying to load cookies from ''
                               @ cookie_fn_name @ ''. '' @ e)]
              | Some (OtherException e) \<Rightarrow>
                  [(ERROR, ''Error happened while trying to load cookies from ''
                             @ cookie_fn_name @ ''. '' @ e)]
              | _ \<Rightarrow> []) BROWSER_MAPPING)
          else [])) \<and>
    (\<forall>name cookie_fn.
       browser_name = Some name \<and> name \<noteq> [] \<and>
       map_of BROWSER_MAPPING (lower name) = Some cookie_fn \<longrightarrow>
       logged w' = logged w @
         (if verbose then
            (case raised (env cookie_fn domain_name) of
               None \<Rightarrow> []
             | Some (BrowserCookieError e) \<Rightarrow>
                 [(INFO, ''No cookies found for '' @ name @ '' or browser not installed.'')]
             | Some (PermissionError e) \<Rightarrow>
                 [(WARNING, ''Permission denied while trying to load cookies from ''
                              @ name @ ''. '' @ e)]
             | Some (OtherException e) \<Rightarrow>
                 [(ERROR, ''Error happened while trying to load cookies from ''
                            @ name @ ''. '' @ e)]
             | Some (OtherBaseException e) \<Rightarrow> [])
          else []))"
proof -
  have caught: "\<forall>(n, f) \<in> set BROWSER_MAPPING.
      \<forall>e. raised (env f domain_name) = Some e \<longrightarrow> is_Exception e"
    using assms by blast
  have all: "try_all env domain_name verbose BROWSER_MAPPING [] w =
    (Inr (for_cookie (concat (map (\<lambda>(n, f). yielded (env f domain_name)) BROWSER_MAPPING)) []),
     w\<lparr>invocations := invocations w @ map (\<lambda>(n, f). (f, domain_name)) BROWSER_MAPPING,
       logged := logged w @
         (if verbose then
            concat (map (\<lambda>(n, f).
              case raised (env f domain_name) of
                Some (PermissionError e) \<Rightarrow>
                  [(WARNING, ''Permission denied while trying to load cookies from '' @ n @ ''. '' @ e)]
              | Some (OtherException e) \<Rightarrow>
                  [(ERROR, ''Error happened while trying to load cookies from '' @ n @ ''. '' @ e)]
              | _ \<Rightarrow> []) BROWSER_MAPPING)
          else [])\<rparr>)"
    using try_all_returns [where env=env and dn=domain_name and items=BROWSER_MAPPING and v=verbose and d="[]" and w=w, OF caught]
      try_all_caught_snd [where env=env and dn=domain_name and items=BROWSER_MAPPING and v=verbose and d="[]" and w=w, OF caught]
    by (simp add: prod_eq_iff)
  show ?thesis
  proof (cases "browser_name = None \<or> browser_name = Some []")
    case True
    then have "load_browser_cookies env domain_name verbose browser_name w =
      try_all env domain_name verbose BROWSER_MAPPING [] w"
      by (auto simp: load_browser_cookies_def)
    with all True show ?thesis by auto
  next
    case False
    then obtain name where name: "browser_name = Some name" "name \<noteq> []" by auto
    show ?thesis
    proof (cases "map_of BROWSER_MAPPING (lower name)")
      case None
      with name show ?thesis by (simp add: load_browser_cookies_def)
    next
      case (Some f)
      from assms have "\<forall>e. raised (env f domain_name) = Some e \<longrightarrow> is_Exception e" by blast
      from try_one_caught [where env=env and f=f and dn=domain_name, OF this]
        load_supported [OF name(2) Some] name Some
      show ?thesis by simp
    qed
  qed
qed

theorem exceptions_of_class_Exception_never_propagate_witness:
  "(\<exists>d w'. load_browser_cookies
       (patched [(chrome, side_effect (PermissionError ''Permission denied for Chrome''))])
       ''google.com'' True (Some ''chrome'') fresh = (Inr d, w') \<and>
     logged w' = [(WARNING, ''Permission denied while trying to load cookies from chrome. Permission denied for Chrome'')]) \<and>
   (\<exists>d w'. load_browser_cookies
       (patched [(chrome, side_effect (PermissionError ''Permission denied for Chrome'')),
                 (opera, side_effect (BrowserCookieError ''Opera error'')),
                 (safari, side_effect (OtherException ''database is locked''))])
       ''google.com'' True None fresh = (Inr d, w') \<and>
     logged w' =
       [(WARNING, ''Permission denied while trying to load cookies from chrome. Permission denied for Chrome''),
        (ERROR, ''Error happened while trying to load cookies from safari. database is locked'')])"
proof -
  let ?E1 = "patched [(chrome, side_effect (PermissionError ''Permission denied for Chrome''))]"
  let ?E2 = "patched [(chrome, side_effect (PermissionError ''Permission denied for Chrome'')),
                 (opera, side_effect (BrowserCookieError ''Opera error'')),
                 (safari, side_effect (OtherException ''database is locked''))]"
  have h1: "\<forall>cookie_fn e. raised (?E1 cookie_fn ''google.com'') = Some e \<longrightarrow> is_Exception e"
    by (auto simp: patched_def side_effect_def return_value_def split: if_splits)
  have h2: "\<forall>cookie_fn e. raised (?E2 cookie_fn ''google.com'') = Some e \<longrightarrow> is_Exception e"
    by (auto simp: patched_def side_effect_def return_value_def split: if_splits)
  have m: "map_of BROWSER_MAPPING (lower ''chrome'') = Some chrome"
    by (simp add: BROWSER_MAPPING_def lower_def lower_char_def)
  from exceptions_of_class_Exception_never_propagate [where env="?E1" and domain_name="''google.com''" and verbose=True and browser_name="Some ''chrome''" and w=fresh, OF h1] m
  have 1: "\<exists>d w'. load_browser_cookies ?E1 ''google.com'' True (Some ''chrome'') fresh = (Inr d, w') \<and>
     logged w' = [(WARNING, ''Permission denied while trying to load cookies from chrome. Permission denied for Chrome'')]"
    by (simp add: fresh_def patched_def side_effect_def)
  from exceptions_of_class_Exception_never_propagate [where env="?E2" and domain_name="''google.com''" and verbose=True and browser_name=None and w=fresh, OF h2]
  have 2: "\<exists>d w'. load_browser_cookies ?E2 ''google.com'' True None fresh = (Inr d, w') \<and>
     logged w' =
       [(WARNING, ''Permission denied while trying to load cookies from chrome. Permission denied for Chrome''),
        (ERROR, ''Error happened while trying to load cookies from safari. database is locked'')]"
    by (simp add: fresh_def patched_def side_effect_def return_value_def BROWSER_MAPPING_def)
  from 1 2 show ?thesis by blast
qed

subsection \<open>C4: the ten readers\<close>

text \<open>
  Claim C4 says that every call in all-browsers mode invokes each of the ten readers.
  The loop has no handler for an exception that is not an instance of \<^verbatim>\<open>Exception\<close>
  (see C3), so such an exception ends the pass. Here \<^verbatim>\<open>bc3.opera\<close> raises
  \<^verbatim>\<open>KeyboardInterrupt\<close>: the call has invoked firefox, chrome, chromium and opera, and
  the six readers after opera are never invoked.
\<close>

theorem all_browsers_pass_cut_short_counterexample:
  "load_browser_cookies
     (patched [(opera, side_effect (OtherBaseException ''KeyboardInterrupt''))])
     ''google.com'' False None fresh =
   (Inl (OtherBaseException ''KeyboardInterrupt''),
    \<lparr>invocations = [(firefox, ''google.com''), (chrome, ''google.com''),
                    (chromium, ''google.com''), (opera, ''google.com'')],
     logged = []\<rparr>)"
  by (simp add: evals)

text \<open>
  Claim C4, amended. \<^verbatim>\<open>BROWSER_MAPPING\<close> has exactly the ten entries firefox, chrome,
  chromium, opera, opera_gx, brave, edge, vivaldi, safari and librewolf, each mapped to
  the reader of that name. A call in all-browsers mode that returns has invoked each of
  the ten exactly once, in this order, each with the caller's \<^verbatim>\<open>domain_name\<close>. Whether
  it returns or not, the readers it has invoked are an initial part of that list: no
  reader is invoked twice, and none with another domain name.
\<close>

theorem all_browsers_invokes_each_reader_once:
  "map fst BROWSER_MAPPING =
     [''firefox'', ''chrome'', ''chromium'', ''opera'', ''opera_gx'',
      ''brave'', ''edge'', ''vivaldi'', ''safari'', ''librewolf''] \<and>
   map snd BROWSER_MAPPING =
     [firefox, chrome, chromium, opera, opera_gx, brave, edge, vivaldi, safari, librewolf] \<and>
   (load_browser_cookies env domain_name verbose None w = (Inr d, w') \<longrightarrow>
      invocations w' = invocations w @
        [(firefox, domain_name), (chrome, domain_name), (chromium, domain_name),
         (opera, domain_name), (opera_gx, domain_name), (brave, domain_name),
         (edge, domain_name), (vivaldi, domain_name), (safari, domain_name),
         (librewolf, domain_name)]) \<and>
   (\<exists>k\<le>10. invocations (snd (load_browser_cookies env domain_name verbose None w)) =
      invocations w @ take k
        [(firefox, domain_name), (chrome, domain_name), (chromium, domain_name),
         (opera, domain_name), (opera_gx, domain_name), (brave, domain_name),
         (edge, domain_name), (vivaldi, domain_name), (safari, domain_name),
         (librewolf, domain_name)])"
proof (intro conjI impI)
  show "map fst BROWSER_MAPPING =
     [''firefox'', ''chrome'', ''chromium'', ''opera'', ''opera_gx'',
      ''brave'', ''edge'', ''vivaldi'', ''safari'', ''librewolf'']"
    by (rule keys_BROWSER_MAPPING)
  show "map snd BROWSER_MAPPING =
     [firefox, chrome, chromium, opera, opera_gx, brave, edge, vivaldi, safari, librewolf]"
    by (rule values_BROWSER_MAPPING)
next
  assume ret: "load_browser_cookies env domain_name verbose None w = (Inr d, w')"
  then have "fst (try_all env domain_name verbose BROWSER_MAPPING [] w) = Inr d"
    by (simp add: load_all_browsers)
  then have "\<forall>(n, f) \<in> set BROWSER_MAPPING.
      \<forall>e. raised (env f domain_name) = Some e \<longrightarrow> is_Exception e"
    by (rule try_all_Inr_D)
  then have "snd (try_all env domain_name verbose BROWSER_MAPPING [] w) =
     w\<lparr>invocations := invocations w @ map (\<lambda>(n, f). (f, domain_name)) BROWSER_MAPPING,
       logged := logged w @
         (if verbose then
            concat (map (\<lambda>(n, f).
              case raised (env f domain_name) of
                Some (PermissionError e) \<Rightarrow>
                  [(WARNING, ''Permission denied while trying to load cookies from '' @ n @ ''. '' @ e)]
              | Some (OtherException e) \<Rightarrow>
                  [(ERROR, ''Error happened while trying to load cookies from '' @ n @ ''. '' @ e)]
              | _ \<Rightarrow> []) BROWSER_MAPPING)
          else [])\<rparr>"
    by (rule try_all_caught_snd)
  with ret have "invocations w' =
      invocations w @ map (\<lambda>(n, f). (f, domain_name)) BROWSER_MAPPING"
    by (simp add: load_all_browsers)
  then show "invocations w' = invocations w @
        [(firefox, domain_name), (chrome, domain_name), (chromium, domain_name),
         (opera, domain_name), (opera_gx, domain_name), (brave, domain_name),
         (edge, domain_name), (vivaldi, domain_name), (safari, domain_name),
         (librewolf, domain_name)]"
    by (simp only: calls_BROWSER_MAPPING)
next
  from try_all_invocations_prefix [of BROWSER_MAPPING env domain_name verbose "[]" w]
  obtain k where "k \<le> length BROWSER_MAPPING"
    "invocations (snd (try_all env domain_name verbose BROWSER_MAPPING [] w)) =
      invocations w @ map (\<lambda>(n, f). (f, domain_name)) (take k BROWSER_MAPPING)" by blast
  then have "k \<le> 10 \<and> invocations (snd (load_browser_cookies env domain_name verbose None w)) =
      invocations w @ take k (map (\<lambda>(n, f). (f, domain_name)) BROWSER_MAPPING)"
    by (simp add: load_all_browsers take_map) (simp add: BROWSER_MAPPING_def)
  then show "\<exists>k\<le>10. invocations (snd (load_browser_cookies env domain_name verbose None w)) =
      invocations w @ take k
        [(firefox, domain_name), (chrome, domain_name), (chromium, domain_name),
         (opera, domain_name), (opera_gx, domain_name), (brave, domain_name),
         (edge, domain_name), (vivaldi, domain_name), (safari, domain_name),
         (librewolf, domain_name)]"
    unfolding calls_BROWSER_MAPPING by blast
qed

theorem all_browsers_invokes_each_reader_once_witness:
  "load_browser_cookies
     (patched [(firefox, return_value [mock_cookie ''__Secure-1PSID'' ''firefox_psid'']),
               (opera, side_effect (BrowserCookieError ''Opera error'')),
               (edge, side_effect (BrowserCookieError ''Edge error'')),
               (safari, side_effect (BrowserCookieError ''Safari error''))])
     ''google.com'' False None fresh =
   (Inr [(''__Secure-1PSID'', ''firefox_psid'')],
    \<lparr>invocations =
       [(firefox, ''google.com''), (chrome, ''google.com''), (chromium, ''google.com''),
        (opera, ''google.com''), (opera_gx, ''google.com''), (brave, ''google.com''),
        (edge, ''google.com''), (vivaldi, ''google.com''), (safari, ''google.com''),
        (librewolf, ''google.com'')],
     logged = []\<rparr>) \<and>
   invocations
     \<lparr>invocations =
       [(firefox, ''google.com''), (chrome, ''google.com''), (chromium, ''google.com''),
        (opera, ''google.com''), (opera_gx, ''google.com''), (brave, ''google.com''),
        (edge, ''google.com''), (vivaldi, ''google.com''), (safari, ''google.com''),
        (librewolf, ''google.com'')],
     logged = []\<rparr> =
   invocations fresh @
       [(firefox, ''google.com''), (chrome, ''google.com''), (chromium, ''google.com''),
        (opera, ''google.com''), (opera_gx, ''google.com''), (brave, ''google.com''),
        (edge, ''google.com''), (vivaldi, ''google.com''), (safari, ''google.com''),
        (librewolf, ''google.com'')]"
proof -
  have run: "load_browser_cookies
     (patched [(firefox, return_value [mock_cookie ''__Secure-1PSID'' ''firefox_psid'']),
               (opera, side_effect (BrowserCookieError ''Opera error'')),
               (edge, side_effect (BrowserCookieError ''Edge error'')),
               (safari, side_effect (BrowserCookieError ''Safari error''))])
     ''google.com'' False None fresh =
   (Inr [(''__Secure-1PSID'', ''firefox_psid'')],
    \<lparr>invocations =
       [(firefox, ''google.com''), (chrome, ''google.com''), (chromium, ''google.com''),
        (opera, ''google.com''), (opera_gx, ''google.com''), (brave, ''google.com''),
        (edge, ''google.com''), (vivaldi, ''google.com''), (safari, ''google.com''),
        (librewolf, ''google.com'')],
     logged = []\<rparr>)"
    by (simp add: evals)
  from all_browsers_invokes_each_reader_once
    [of "patched [(firefox, return_value [mock_cookie ''__Secure-1PSID'' ''firefox_psid'']),
               (opera, side_effect (BrowserCookieError ''Opera error'')),
               (edge, side_effect (BrowserCookieError ''Edge error'')),
               (safari, side_effect (BrowserCookieError ''Safari error''))]"
      "''google.com''" False fresh] run
  show ?thesis by blast
qed

subsection \<open>C5: the returned dict\<close>

text \<open>
  Claim C5. Whenever a call returns, in either mode, what it returns is one flat
  mapping from cookie names to cookie values: no key occurs twice, and every entry
  \<open>(k, v)\<close> is the name and the value of a cookie yielded by a reader that this call
  invoked (one of the calls it appended to the world). Readers that were not invoked
  contribute nothing, and for a name that is not supported the dict is empty.
\<close>

theorem returned_dict_holds_yielded_cookies_only:
  assumes "load_browser_cookies env domain_name verbose browser_name w = (Inr d, w')"
  shows "distinct (map fst d) \<and>
    (\<forall>(k, v) \<in> set d.
       \<exists>(cookie_fn, dn) \<in> set (drop (length (invocations w)) (invocations w')).
         \<exists>c \<in> set (yielded (env cookie_fn dn)). cookie_name c = k \<and> cookie_value c = v)"
proof (cases "browser_name = None \<or> browser_name = Some []")
  case True
  then have eq: "load_browser_cookies env domain_name verbose browser_name w =
      try_all env domain_name verbose BROWSER_MAPPING [] w"
    by (auto simp: load_browser_cookies_def)
  with assms have ret: "fst (try_all env domain_name verbose BROWSER_MAPPING [] w) = Inr d"
    and w': "snd (try_all env domain_name verbose BROWSER_MAPPING [] w) = w'" by simp_all
  from try_all_Inr_D [OF ret] have caught: "\<forall>(n, f) \<in> set BROWSER_MAPPING.
      \<forall>e. raised (env f domain_name) = Some e \<longrightarrow> is_Exception e" .
  from try_all_returns [where env=env and dn=domain_name and items=BROWSER_MAPPING
      and v=verbose and d="[]" and w=w, OF caught] ret
  have d: "d = for_cookie
      (concat (map (\<lambda>(n, f). yielded (env f domain_name)) BROWSER_MAPPING)) []" by simp
  from try_all_caught_snd [where env=env and dn=domain_name and items=BROWSER_MAPPING
      and v=verbose and d="[]" and w=w, OF caught] w'
  have calls: "drop (length (invocations w)) (invocations w') =
      map (\<lambda>(n, f). (f, domain_name)) BROWSER_MAPPING" by auto
  have "distinct (map fst d)" unfolding d by (simp add: distinct_for_cookie)
  moreover have "\<exists>(cookie_fn, dn) \<in> set (drop (length (invocations w)) (invocations w')).
         \<exists>c \<in> set (yielded (env cookie_fn dn)). cookie_name c = k \<and> cookie_value c = v"
    if "(k, v) \<in> set d" for k v
  proof -
    from for_cookie_entries [OF that [unfolded d]] obtain c n f where
      "(n, f) \<in> set BROWSER_MAPPING" "c \<in> set (yielded (env f domain_name))"
      "cookie_name c = k" "cookie_value c = v" by auto
    then show ?thesis unfolding calls by force
  qed
  ultimately show ?thesis by auto
next
  case False
  then obtain name where name: "browser_name = Some name" "name \<noteq> []" by auto
  show ?thesis
  proof (cases "map_of BROWSER_MAPPING (lower name)")
    case None
    with name assms have "d = []" by (simp add: load_browser_cookies_def)
    then show ?thesis by simp
  next
    case (Some f)
    from load_supported [OF name(2) Some] name assms
    have one: "try_one env domain_name verbose name f [] w = (Inr d, w')" by simp
    then have "fst (try_one env domain_name verbose name f [] w) = Inr d" by simp
    then have d: "d = for_cookie (yielded (env f domain_name)) []"
      by (simp add: try_one_result split: option.splits if_splits)
    from one try_one_invocations [of env domain_name verbose name f "[]" w]
    have calls: "drop (length (invocations w)) (invocations w') = [(f, domain_name)]" by simp
    have "distinct (map fst d)" unfolding d by (simp add: distinct_for_cookie)
    moreover have "\<exists>(cookie_fn, dn) \<in> set (drop (length (invocations w)) (invocations w')).
         \<exists>c \<in> set (yielded (env cookie_fn dn)). cookie_name c = k \<and> cookie_value c = v"
      if "(k, v) \<in> set d" for k v
      using for_cookie_entries [OF that [unfolded d]] unfolding calls by simp
    ultimately show ?thesis by auto
  qed
qed

theorem returned_dict_holds_yielded_cookies_only_witness:
  "load_browser_cookies merging_mocks ''google.com'' False None fresh =
     (Inr [(''ANOTHER_COOKIE'', ''firefox_another_val''),
           (''__Secure-1PSID'', ''chrome_psid''),
           (''OTHER_COOKIE'', ''chrome_other_val'')],
      \<lparr>invocations =
         [(firefox, ''google.com''), (chrome, ''google.com''), (chromium, ''google.com''),
          (opera, ''google.com''), (opera_gx, ''google.com''), (brave, ''google.com''),
          (edge, ''google.com''), (vivaldi, ''google.com''), (safari, ''google.com''),
          (librewolf, ''google.com'')],
       logged = []\<rparr>) \<and>
   distinct (map fst [(''ANOTHER_COOKIE'', ''firefox_another_val''),
           (''__Secure-1PSID'', ''chrome_psid''),
           (''OTHER_COOKIE'', ''chrome_other_val'')]) \<and>
   (\<exists>(cookie_fn, dn) \<in> set
         [(firefox, ''google.com''), (chrome, ''google.com''), (chromium, ''google.com''),
          (opera, ''google.com''), (opera_gx, ''google.com''), (brave, ''google.com''),
          (edge, ''google.com''), (vivaldi, ''google.com''), (safari, ''google.com''),
          (librewolf, ''google.com'')].
      \<exists>c \<in> set (yielded (merging_mocks cookie_fn dn)).
        cookie_name c = ''__Secure-1PSID'' \<and> cookie_value c = ''chrome_psid'')"
proof -
  note inst = returned_dict_holds_yielded_cookies_only
    [where env=merging_mocks and domain_name="''google.com''" and verbose=False
       and browser_name=None and w=fresh, OF merging_mocks_run]
  from inst have 1: "distinct (map fst [(''ANOTHER_COOKIE'', ''firefox_another_val''),
           (''__Secure-1PSID'', ''chrome_psid''),
           (''OTHER_COOKIE'', ''chrome_other_val'')])" by (rule conjunct1)
  from inst have "\<forall>(k, v) \<in> set [(''ANOTHER_COOKIE'', ''firefox_another_val''),
           (''__Secure-1PSID'', ''chrome_psid''),
           (''OTHER_COOKIE'', ''chrome_other_val'')].
       \<exists>(cookie_fn, dn) \<in> set (drop (length (invocations fresh))
         [(firefox, ''google.com''), (chrome, ''google.com''), (chromium, ''google.com''),
          (opera, ''google.com''), (opera_gx, ''google.com''), (brave, ''google.com''),
          (edge, ''google.com''), (vivaldi, ''google.com''), (safari, ''google.com''),
          (librewolf, ''google.com'')]).
         \<exists>c \<in> set (yielded (merging_mocks cookie_fn dn)). cookie_name c = k \<and> cookie_value c = v"
    by simp
  then have 2: "\<exists>(cookie_fn, dn) \<in> set
         [(firefox, ''google.com''), (chrome, ''google.com''), (chromium, ''google.com''),
          (opera, ''google.com''), (opera_gx, ''google.com''), (brave, ''google.com''),
          (edge, ''google.com''), (vivaldi, ''google.com''), (safari, ''google.com''),
          (librewolf, ''google.com'')].
      \<exists>c \<in> set (yielded (merging_mocks cookie_fn dn)).
        cookie_name c = ''__Secure-1PSID'' \<and> cookie_value c = ''chrome_psid''"
    by (simp add: fresh_def)
  from merging_mocks_run 1 2 show ?thesis by blast
qed

subsection \<open>C6: termination\<close>

text \<open>
  Claim C6. The call terminates on every input. The cookies that a reader yields are a
  finite list and the mapping is a finite list, and both loops of the model are
  recursions on these lists, so the function is total: every call has an outcome. The
  pass is bounded: the call invokes at most as many readers as the mapping has entries,
  ten, and at most one when a browser name is given. The outcome is a returned dict,
  or else an exception that some reader raised and that is not an instance of
  \<^verbatim>\<open>Exception\<close>, which leaves the function (see C3).
\<close>

theorem load_browser_cookies_terminates:
  "\<exists>r w'. load_browser_cookies env domain_name verbose browser_name w = (r, w') \<and>
     length (invocations w') \<le> length (invocations w) + length BROWSER_MAPPING \<and>
     length BROWSER_MAPPING = 10 \<and>
     (\<forall>name. browser_name = Some name \<and> name \<noteq> [] \<longrightarrow>
        length (invocations w') \<le> length (invocations w) + 1) \<and>
     ((\<exists>d. r = Inr d) \<or>
      (\<exists>e cookie_fn. r = Inl e \<and> \<not> is_Exception e \<and>
         raised (env cookie_fn domain_name) = Some e))"
proof -
  obtain r w' where rw: "load_browser_cookies env domain_name verbose browser_name w = (r, w')"
    by (cases "load_browser_cookies env domain_name verbose browser_name w")
  have len: "length BROWSER_MAPPING = 10" by (simp add: BROWSER_MAPPING_def)
  have all_bound: "length (invocations (snd (try_all env domain_name verbose BROWSER_MAPPING [] w)))
      \<le> length (invocations w) + length BROWSER_MAPPING"
    using try_all_invocations_prefix [of BROWSER_MAPPING env domain_name verbose "[]" w]
    by auto
  have all_res: "(\<exists>d. fst (try_all env domain_name verbose BROWSER_MAPPING [] w) = Inr d) \<or>
      (\<exists>e cookie_fn. fst (try_all env domain_name verbose BROWSER_MAPPING [] w) = Inl e \<and>
         \<not> is_Exception e \<and> raised (env cookie_fn domain_name) = Some e)"
  proof (cases "fst (try_all env domain_name verbose BROWSER_MAPPING [] w)")
    case (Inl e)
    from try_all_Inl_D [OF this] Inl show ?thesis by auto
  next
    case (Inr d)
    then show ?thesis by simp
  qed
  have one_res: "(\<exists>d. fst (try_one env domain_name verbose name f [] w) = Inr d) \<or>
      (\<exists>e cookie_fn. fst (try_one env domain_name verbose name f [] w) = Inl e \<and>
         \<not> is_Exception e \<and> raised (env cookie_fn domain_name) = Some e)" for name f
    by (cases "raised (env f domain_name)") (auto simp: try_one_result)
  have "length (invocations w') \<le> length (invocations w) + length BROWSER_MAPPING \<and>
     (\<forall>name. browser_name = Some name \<and> name \<noteq> [] \<longrightarrow>
        length (invocations w') \<le> length (invocations w) + 1) \<and>
     ((\<exists>d. r = Inr d) \<or>
      (\<exists>e cookie_fn. r = Inl e \<and> \<not> is_Exception e \<and>
         raised (env cookie_fn domain_name) = Some e))"
  proof (cases "browser_name = None \<or> browser_name = Some []")
    case True
    then have "load_browser_cookies env domain_name verbose browser_name w =
      try_all env domain_name verbose BROWSER_MAPPING [] w"
      by (auto simp: load_browser_cookies_def)
    with rw have "try_all env domain_name verbose BROWSER_MAPPING [] w = (r, w')" by simp
    with all_bound all_res True show ?thesis by auto
  next
    case False
    then obtain name where name: "browser_name = Some name" "name \<noteq> []" by auto
    show ?thesis
    proof (cases "map_of BROWSER_MAPPING (lower name)")
      case None
      with name rw len show ?thesis by (auto simp: load_browser_cookies_def logger_def)
    next
      case (Some f)
      from load_supported [OF name(2) Some] name rw
      have "try_one env domain_name verbose name f [] w = (r, w')" by simp
      with one_res [of name f] try_one_invocations [of env domain_name verbose name f "[]" w]
        name len show ?thesis by auto
    qed
  qed
  with rw len show ?thesis by blast
qed

theorem load_browser_cookies_terminates_witness:
  "load_browser_cookies
     (patched [(chrome, return_value [mock_cookie ''__Secure-1PSID'' ''test_psid_val''])])
     ''google.com'' True (Some ''chrome'') fresh =
   (Inr [(''__Secure-1PSID'', ''test_psid_val'')],
    \<lparr>invocations = [(chrome, ''google.com'')], logged = []\<rparr>) \<and>
   (\<exists>r w'. load_browser_cookies
     (patched [(chrome, return_value [mock_cookie ''__Secure-1PSID'' ''test_psid_val''])])
     ''google.com'' True (Some ''chrome'') fresh = (r, w') \<and>
     length (invocations w') \<le> length (invocations fresh) + 1)"
proof -
  have "load_browser_cookies
     (patched [(chrome, return_value [mock_cookie ''__Secure-1PSID'' ''test_psid_val''])])
     ''google.com'' True (Some ''chrome'') fresh =
   (Inr [(''__Secure-1PSID'', ''test_psid_val'')],
    \<lparr>invocations = [(chrome, ''google.com'')], logged = []\<rparr>)"
    by (simp add: evals)
  moreover from load_browser_cookies_terminates
    [of "patched [(chrome, return_value [mock_cookie ''__Secure-1PSID'' ''test_psid_val''])]"
      "''google.com''" True "Some ''chrome''" fresh]
  have "\<exists>r w'. load_browser_cookies
     (patched [(chrome, return_value [mock_cookie ''__Secure-1PSID'' ''test_psid_val''])])
     ''google.com'' True (Some ''chrome'') fresh = (r, w') \<and>
     length (invocations w') \<le> length (invocations fresh) + 1"
    by auto
  ultimately show ?thesis by blast
qed

subsection \<open>C7: no state between invocations\<close>

text \<open>
  Claim C7. The function keeps nothing from one invocation to the next. For fixed
  arguments and fixed reader outcomes there is one result, one list of reader calls and
  one list of log records such that, from every world \<open>w\<close> (whatever earlier calls left
  in it), the call gives that result and appends exactly those calls and records. In
  particular a call made after any other call of the function gives the same result
  as the same call made before it: the dict starts empty every time.
\<close>

theorem no_state_between_invocations:
  "(\<exists>r calls logs. \<forall>w. load_browser_cookies env domain_name verbose browser_name w =
      (r, w\<lparr>invocations := invocations w @ calls, logged := logged w @ logs\<rparr>)) \<and>
   fst (load_browser_cookies env domain_name verbose browser_name
          (snd (load_browser_cookies env0 domain_name0 verbose0 browser_name0 w))) =
   fst (load_browser_cookies env domain_name verbose browser_name w)"
  using load_effects [of env domain_name verbose browser_name]
    load_fst_world [of env domain_name verbose browser_name _ verbose w]
  by blast

subsection \<open>C8: a name that is not supported\<close>

text \<open>
  Claim C8. For a non-empty \<^verbatim>\<open>browser_name\<close> whose lowercased form is not a key of
  \<^verbatim>\<open>BROWSER_MAPPING\<close> the call returns the empty dict, invokes no reader, and logs one
  warning that quotes the name and lists the ten supported names (whatever
  \<^verbatim>\<open>verbose\<close> is). The lookup is made with the lowercased name: the reader invoked for
  a name is the one that the mapping gives for its lowercased form, and two names with
  the same lowercased form give the same result and the same reader calls.
\<close>

theorem unsupported_browser_name:
  "(name \<noteq> [] \<longrightarrow> lower name \<notin> fst ` set BROWSER_MAPPING \<longrightarrow>
      load_browser_cookies env domain_name verbose (Some name) w =
        (Inr [],
         w\<lparr>logged := logged w @
            [(WARNING,
              ''Invalid browser name '' @ [CHR 0x27] @ name @ [CHR 0x27]
                @ ''. Supported names are: firefox, chrome, chromium, opera, opera_gx, brave, edge, vivaldi, safari, librewolf. No cookies will be loaded.'')]\<rparr>)) \<and>
   (name1 \<noteq> [] \<longrightarrow> map_of BROWSER_MAPPING (lower name1) = Some cookie_fn \<longrightarrow>
      invocations (snd (load_browser_cookies env domain_name verbose (Some name1) w)) =
        invocations w @ [(cookie_fn, domain_name)]) \<and>
   (name1 \<noteq> [] \<longrightarrow> lower name1 = lower name2 \<longrightarrow>
      fst (load_browser_cookies env domain_name verbose (Some name1) w) =
      fst (load_browser_cookies env domain_name verbose (Some name2) w) \<and>
      invocations (snd (load_browser_cookies env domain_name verbose (Some name1) w)) =
      invocations (snd (load_browser_cookies env domain_name verbose (Some name2) w)))"
proof (intro conjI impI)
  assume ne: "name \<noteq> []" and "lower name \<notin> fst ` set BROWSER_MAPPING"
  then have "map_of BROWSER_MAPPING (lower name) = None"
    by (simp add: map_of_eq_None_iff)
  with ne show "load_browser_cookies env domain_name verbose (Some name) w =
        (Inr [],
         w\<lparr>logged := logged w @
            [(WARNING,
              ''Invalid browser name '' @ [CHR 0x27] @ name @ [CHR 0x27]
                @ ''. Supported names are: firefox, chrome, chromium, opera, opera_gx, brave, edge, vivaldi, safari, librewolf. No cookies will be loaded.'')]\<rparr>)"
    by (simp add: load_browser_cookies_def logger_def keys_BROWSER_MAPPING)
next
  assume "name1 \<noteq> []" and "map_of BROWSER_MAPPING (lower name1) = Some cookie_fn"
  then show "invocations (snd (load_browser_cookies env domain_name verbose (Some name1) w)) =
        invocations w @ [(cookie_fn, domain_name)]"
    by (simp add: load_supported try_one_invocations)
next
  assume ne: "name1 \<noteq> []" and eq: "lower name1 = lower name2"
  from ne eq have ne2: "name2 \<noteq> []" by (metis lower_Nil_iff)
  show "fst (load_browser_cookies env domain_name verbose (Some name1) w) =
      fst (load_browser_cookies env domain_name verbose (Some name2) w)"
  proof (cases "map_of BROWSER_MAPPING (lower name1)")
    case None
    with ne ne2 eq show ?thesis by (simp add: load_browser_cookies_def)
  next
    case (Some f)
    with ne ne2 eq show ?thesis
      by (simp add: load_supported try_one_fst_world [of env domain_name verbose name1 f _ w verbose name2 w])
  qed
  show "invocations (snd (load_browser_cookies env domain_name verbose (Some name1) w)) =
      invocations (snd (load_browser_cookies env domain_name verbose (Some name2) w))"
  proof (cases "map_of BROWSER_MAPPING (lower name1)")
    case None
    with ne ne2 eq show ?thesis by (simp add: load_browser_cookies_def logger_def)
  next
    case (Some f)
    with ne ne2 eq show ?thesis
      by (simp add: load_supported try_one_invocations)
  qed
qed

theorem unsupported_browser_name_witness:
  "''netscape'' \<noteq> [] \<and> lower ''netscape'' \<notin> fst ` set BROWSER_MAPPING \<and>
   load_browser_cookies (patched [(chrome, return_value [mock_cookie ''a'' ''1''])])
       ''google.com'' False (Some ''netscape'') fresh =
     (Inr [],
      \<lparr>invocations = [],
       logged = [(WARNING, ''Invalid browser name '' @ [CHR 0x27] @ ''netscape'' @ [CHR 0x27]
                @ ''. Supported names are: firefox, chrome, chromium, opera, opera_gx, brave, edge, vivaldi, safari, librewolf. No cookies will be loaded.'')]\<rparr>) \<and>
   ''CHROME'' \<noteq> [] \<and> map_of BROWSER_MAPPING (lower ''CHROME'') = Some chrome \<and>
   lower ''CHROME'' = lower ''chrome'' \<and>
   invocations (snd (load_browser_cookies (patched [(chrome, return_value [mock_cookie ''a'' ''1''])])
       ''google.com'' False (Some ''CHROME'') fresh)) = [(chrome, ''google.com'')] \<and>
   fst (load_browser_cookies (patched [(chrome, return_value [mock_cookie ''a'' ''1''])])
       ''google.com'' False (Some ''CHROME'') fresh) =
   fst (load_browser_cookies (patched [(chrome, return_value [mock_cookie ''a'' ''1''])])
       ''google.com'' False (Some ''chrome'') fresh)"
proof -
  have 1: "''netscape'' \<noteq> []" by simp
  have 2: "lower ''netscape'' \<notin> fst ` set BROWSER_MAPPING"
    by (simp add: lower_def lower_char_def BROWSER_MAPPING_def)
  have 3: "''CHROME'' \<noteq> []" by simp
  have 4: "map_of BROWSER_MAPPING (lower ''CHROME'') = Some chrome"
    by (simp add: lower_def lower_char_def BROWSER_MAPPING_def)
  have 5: "lower ''CHROME'' = lower ''chrome''"
    by (simp add: lower_def lower_char_def)
  from unsupported_browser_name [of "''netscape''" "patched [(chrome, return_value [mock_cookie ''a'' ''1''])]"
      "''google.com''" False fresh "''CHROME''" chrome "''chrome''"] 1 2 3 4 5
  show ?thesis by (simp add: fresh_def)
qed

subsection \<open>C9: the empty name\<close>

text \<open>
  Claim C9. The branch tests the truth value of \<^verbatim>\<open>browser_name\<close>, so the empty string
  takes the path of \<^verbatim>\<open>None\<close>: for every domain name, every \<^verbatim>\<open>verbose\<close> and all
  reader outcomes the two calls give the same result, and the same calls and log
  records as well.
\<close>

theorem empty_browser_name_is_all_browsers:
  "load_browser_cookies env domain_name verbose (Some '''') w =
   load_browser_cookies env domain_name verbose None w"
  by (simp add: load_browser_cookies_def)

subsection \<open>C10: verbose\<close>

text \<open>
  Claim C10. The flag \<^verbatim>\<open>verbose\<close> changes the log only: with the same domain name,
  browser name and reader outcomes, the call with \<^verbatim>\<open>verbose = True\<close> and the call with
  \<^verbatim>\<open>verbose = False\<close> give the same result (the same dict, or the same propagated
  exception) and call the same readers with the same arguments.
\<close>

theorem verbose_affects_only_logging:
  "fst (load_browser_cookies env domain_name True browser_name w) =
   fst (load_browser_cookies env domain_name False browser_name w) \<and>
   invocations (snd (load_browser_cookies env domain_name True browser_name w)) =
   invocations (snd (load_browser_cookies env domain_name False browser_name w))"
proof
  show "fst (load_browser_cookies env domain_name True browser_name w) =
   fst (load_browser_cookies env domain_name False browser_name w)"
    by (rule load_fst_world)
  show "invocations (snd (load_browser_cookies env domain_name True browser_name w)) =
   invocations (snd (load_browser_cookies env domain_name False browser_name w))"
  proof (cases browser_name)
    case None
    then show ?thesis
      by (simp add: load_browser_cookies_def try_all_invocations_verbose [of w w])
  next
    case (Some name)
    then show ?thesis
      by (cases "map_of BROWSER_MAPPING (lower name)")
         (simp_all add: load_browser_cookies_def logger_def
            try_all_invocations_verbose [of w w] try_one_invocations_verbose [of _ _ True _ _ _ _ False])
  qed
qed

end
